theory Spec2Isabelle
  imports Main "HOL-Library.Sublist"
begin

section \<open>JavaScript values used by the initializer\<close>

text \<open>
  Strings are \<open>string\<close>; an optional field (\<open>name?: string\<close>) is an \<open>option\<close>, with
  \<open>None\<close> for a field that is absent.  The operators \<open>??\<close>, \<open>||\<close> and \<open>!\<close> are written
  out for the types at which \<open>cli.ts\<close> applies them.
\<close>

text \<open>\<open>s ?? ""\<close>: the string, or the empty string when the field is absent.  A string is
  truthy exactly when it is not empty, so \<open>!s\<close> for an optional string is
  \<open>or_empty s = []\<close>.\<close>

definition or_empty :: "string option \<Rightarrow> string" where
  "or_empty s = (case s of None \<Rightarrow> [] | Some t \<Rightarrow> t)"

text \<open>\<open>a ?? b\<close> on optional strings.\<close>

definition nullish :: "string option \<Rightarrow> string option \<Rightarrow> string option" where
  "nullish a b = (case a of None \<Rightarrow> b | Some t \<Rightarrow> Some t)"

text \<open>\<open>a || b\<close> on optional strings: \<open>a\<close> when it is truthy, else \<open>b\<close>.\<close>

definition str_or :: "string option \<Rightarrow> string option \<Rightarrow> string option" where
  "str_or a b = (if or_empty a \<noteq> [] then a else b)"

text \<open>A JavaScript number that is a time value: an integer number of milliseconds, or
  \<open>NaN\<close> (\<open>None\<close>).  \<open>NaN\<close> and \<open>0\<close> are falsy; \<open>x > y\<close> is false when either
  side is \<open>NaN\<close>.\<close>

type_synonym num = "int option"

definition truthy_num :: "num \<Rightarrow> bool" where
  "truthy_num x = (case x of None \<Rightarrow> False | Some n \<Rightarrow> n \<noteq> 0)"

definition num_or :: "num \<Rightarrow> num \<Rightarrow> num" where
  "num_or a b = (if truthy_num a then a else b)"

definition num_gt :: "num \<Rightarrow> num \<Rightarrow> bool" where
  "num_gt x y = (case (x, y) of (Some a, Some b) \<Rightarrow> a > b | _ \<Rightarrow> False)"

text \<open>\<open>String.prototype.toLowerCase\<close> on the ASCII letters; every other character is
  left as it is.  (No character outside ASCII lower-cases to one of the characters of
  \<open>bin.zip\<close> alone, so the comparison with that literal is not affected.)\<close>

definition toLowerCase_char :: "char \<Rightarrow> char" where
  "toLowerCase_char c =
     (let n = (of_char c :: nat) in if 65 \<le> n \<and> n \<le> 90 then char_of (n + 32) else c)"

definition toLowerCase :: "string \<Rightarrow> string" where
  "toLowerCase s = map toLowerCase_char s"

section \<open>Releases and assets\<close>

text \<open>\<open>type Release\<close> of \<open>cli.ts\<close> (lines 51 to 57) and the element type of its
  \<open>assets\<close> field.\<close>

record asset =
  asset_name :: "string option"
  browser_download_url :: "string option"

record release =
  name :: "string option"
  created_at :: "string option"
  published_at :: "string option"
  draft :: "bool option"
  assets :: "asset list option"

text \<open>The value \<open>{ release, assetUrl }\<close> that the selection returns.\<close>

type_synonym selection = "release \<times> string"

section \<open>Selecting the release: \<open>pickLatestReleaseWithBinZip\<close>\<close>

text \<open>\<open>Date.parse\<close> is a function of the JavaScript runtime.  The selection takes it as
  the parameter \<open>dp\<close>: the time value of a string, or \<open>None\<close> for \<open>NaN\<close>.\<close>

type_synonym date_parse = "string \<Rightarrow> num"

text \<open>The predicate given to \<open>find\<close> (line 164).\<close>

definition is_bin_zip :: "asset \<Rightarrow> bool" where
  "is_bin_zip entry = (toLowerCase (or_empty (asset_name entry)) = ''bin.zip'')"

text \<open>\<open>release.assets?.find(...)\<close> (lines 163 to 165): the first asset that satisfies the
  predicate, if the release has assets and one of them does.\<close>

definition find_asset :: "release \<Rightarrow> asset option" where
  "find_asset r = (case assets r of None \<Rightarrow> None | Some as \<Rightarrow> find is_bin_zip as)"

text \<open>\<open>asset?.browser_download_url\<close> (line 166).\<close>

definition asset_url :: "release \<Rightarrow> string option" where
  "asset_url r = (case find_asset r of None \<Rightarrow> None | Some a \<Rightarrow> browser_download_url a)"

text \<open>The constant \<open>time\<close> of the loop body (lines 171 to 174).\<close>

definition time :: "date_parse \<Rightarrow> release \<Rightarrow> num" where
  "time dp r =
     num_or (num_or (dp (or_empty (published_at r))) (dp (or_empty (created_at r)))) (Some 0)"

text \<open>The constant \<open>latestTime\<close> of the loop body (lines 175 to 180).  The conditional
  operator binds weaker than \<open>||\<close>: the condition is
  \<open>latest?.release.published_at || latest?.release.created_at\<close>.\<close>

definition latestTime :: "date_parse \<Rightarrow> selection option \<Rightarrow> num" where
  "latestTime dp latest =
     (let p = (case latest of None \<Rightarrow> None | Some l \<Rightarrow> published_at (fst l));
          c = (case latest of None \<Rightarrow> None | Some l \<Rightarrow> created_at (fst l))
      in if or_empty (str_or p c) \<noteq> []
         then num_or (dp (or_empty (nullish p c))) (Some 0)
         else Some 0)"

text \<open>One iteration of the loop (lines 158 to 185): the new value of \<open>latest\<close>.\<close>

definition pick_step :: "date_parse \<Rightarrow> selection option \<Rightarrow> release \<Rightarrow> selection option" where
  "pick_step dp latest r =
     (if draft r = Some True then latest
      else let url = asset_url r in
        if or_empty url = [] then latest
        else if latest = None \<or> num_gt (time dp r) (latestTime dp latest)
             then Some (r, or_empty url)
             else latest)"

text \<open>The loop over \<open>releases\<close>, with \<open>latest\<close> as its state.\<close>

fun pick_loop :: "date_parse \<Rightarrow> release list \<Rightarrow> selection option \<Rightarrow> selection option" where
  "pick_loop dp [] latest = latest"
| "pick_loop dp (r # rs) latest = pick_loop dp rs (pick_step dp latest r)"

definition pickLatestReleaseWithBinZip :: "date_parse \<Rightarrow> release list \<Rightarrow> selection option" where
  "pickLatestReleaseWithBinZip dp releases = pick_loop dp releases None"

text \<open>The two guards of the loop body (lines 159 to 169) as one predicate: the release is
  not a draft, and the first asset found under the name \<open>bin.zip\<close> has a download URL
  that is not empty.\<close>

definition qualifies :: "release \<Rightarrow> bool" where
  "qualifies r \<longleftrightarrow> draft r \<noteq> Some True \<and> or_empty (asset_url r) \<noteq> []"

text \<open>The value of \<open>time\<close> as an integer; \<open>time\<close> is never \<open>NaN\<close>, since its last
  alternative is \<open>0\<close>.\<close>

definition effective_time :: "date_parse \<Rightarrow> release \<Rightarrow> int" where
  "effective_time dp r = (case time dp r of None \<Rightarrow> 0 | Some n \<Rightarrow> n)"

text \<open>The releases on which \<open>time\<close> and \<open>latestTime\<close> read the same date: either
  \<open>published_at\<close> is absent, or it parses to a time that is not zero, or \<open>created_at\<close>
  gives no time to fall back on.\<close>

definition dates_consistent :: "date_parse \<Rightarrow> release \<Rightarrow> bool" where
  "dates_consistent dp r =
     (case published_at r of
        None \<Rightarrow> True
      | Some p \<Rightarrow> truthy_num (dp p) \<or> \<not> truthy_num (dp (or_empty (created_at r))))"

text \<open>What the loop keeps in \<open>latest\<close>: nothing, or a release of the list that passed both
  guards, with the URL of its first matching asset.\<close>

definition selectable :: "release list \<Rightarrow> selection option \<Rightarrow> bool" where
  "selectable rs latest =
     (case latest of
        None \<Rightarrow> True
      | Some (r, u) \<Rightarrow> r \<in> set rs \<and> qualifies r \<and> u = or_empty (asset_url r))"

section \<open>Errors and outcomes\<close>

text \<open>The errors of the program: \<open>new Error(message)\<close>, the \<open>TypeError\<close> of
  \<open>new URL\<close> and the \<open>SyntaxError\<close> of \<open>JSON.parse\<close>.  Errors raised by the network
  and the file system are \<open>Error\<close> values chosen by the world.\<close>

datatype js_error = Error string | TypeError | SyntaxError

text \<open>How an asynchronous operation ends: its promise is fulfilled, or rejected, or an
  exception leaves an event callback where nothing catches it (the process ends there),
  or \<open>process.exit\<close> is called.\<close>

datatype 'a outcome = Resolved 'a | Rejected js_error | Uncaught js_error | Exit nat

text \<open>\<open>await m; k\<close>: the continuation runs when \<open>m\<close> is fulfilled; every other outcome
  ends the sequence.\<close>

definition await :: "'a outcome \<times> 's \<Rightarrow> ('a \<Rightarrow> 's \<Rightarrow> 'b outcome \<times> 's) \<Rightarrow> 'b outcome \<times> 's" where
  "await m k =
     (case m of
        (Resolved v, s) \<Rightarrow> k v s
      | (Rejected e, s) \<Rightarrow> (Rejected e, s)
      | (Uncaught e, s) \<Rightarrow> (Uncaught e, s)
      | (Exit n, s) \<Rightarrow> (Exit n, s))"

text \<open>\<open>try { m } finally { cleanup }\<close>: the cleanup runs after a fulfilled or a rejected
  body and keeps the body's outcome unless it fails itself.  It does not run when the
  process has ended.\<close>

definition try_finally ::
  "'a outcome \<times> 's \<Rightarrow> ('s \<Rightarrow> unit outcome \<times> 's) \<Rightarrow> 'a outcome \<times> 's" where
  "try_finally m cleanup =
     (case m of
        (Resolved v, s) \<Rightarrow> await (cleanup s) (\<lambda>_ s'. (Resolved v, s'))
      | (Rejected e, s) \<Rightarrow> await (cleanup s) (\<lambda>_ s'. (Rejected e, s'))
      | (Uncaught e, s) \<Rightarrow> (Uncaught e, s)
      | (Exit n, s) \<Rightarrow> (Exit n, s))"

text \<open>A status code inside a template literal: its decimal digits.\<close>

fun show_nat :: "nat \<Rightarrow> string" where
  "show_nat n =
     (if n < 10 then [char_of (48 + n)] else show_nat (n div 10) @ [char_of (48 + n mod 10)])"

declare show_nat.simps [simp del]

text \<open>Reading decimal digits back, with an accumulator.\<close>

definition digit_of :: "char \<Rightarrow> nat option" where
  "digit_of c =
     (let n = (of_char c :: nat) in if 48 \<le> n \<and> n \<le> 57 then Some (n - 48) else None)"

fun digits_val :: "string \<Rightarrow> nat \<Rightarrow> nat option" where
  "digits_val [] acc = Some acc"
| "digits_val (c # cs) acc =
     (case digit_of c of None \<Rightarrow> None | Some d \<Rightarrow> digits_val cs (10 * acc + d))"

section \<open>The world: network and file system\<close>

text \<open>A file system maps a path (its list of components) to what is there.\<close>

type_synonym path = "string list"

datatype node = Dir | File string

text \<open>The state that the program changes: the file system, and the number of requests
  sent so far (every \<open>https.get\<close> adds one).\<close>

record sys =
  files :: "path \<Rightarrow> node option"
  requests :: nat

text \<open>What the callback of \<open>https.get\<close> reads of a response: \<open>res.statusCode\<close>,
  \<open>res.headers.location\<close> and the body.  The body is the body received in full:
  \<open>requestJson\<close> settles on the \<open>end\<close> event of the response and is modelled for that
  case only; for \<open>downloadToFile\<close> a transfer that breaks off is the \<open>pipeline_fault\<close>
  of the world below.\<close>

record response =
  statusCode :: "nat option"
  location :: "string option"
  body :: string

text \<open>The request ends in its \<open>error\<close> event (or \<open>https.get\<close> throws inside the promise
  executor), or the callback receives a response.  Every request is answered in one of
  these two ways: a server that stays silent is outside the model.\<close>

datatype reply = ReqError js_error | Response response

text \<open>\<open>type LatestRelease\<close> (lines 47 to 49).\<close>

record latest_release =
  tag_name :: "string option"

text \<open>
  Everything the program does not decide itself:
  \<^item> \<open>net t url\<close>: the reply to request number \<open>t\<close>, sent to \<open>url\<close>;
  \<^item> \<open>new_URL location base\<close>: \<open>new URL(location, base).toString()\<close>, \<open>None\<close> when the
    constructor throws;
  \<^item> \<open>pipeline_fault t\<close>: whether \<open>pipeline(res, fileStream)\<close> fails for the response to
    request \<open>t\<close>, with which error, and which file content (if any) it leaves behind;
  \<^item> \<open>JSON_parse_latest\<close>, \<open>JSON_parse_releases\<close>: \<open>JSON.parse\<close> read at the two types at
    which \<open>requestJson\<close> is called (the cast \<open>as T\<close> of line 95 is taken at its word),
    \<open>None\<close> when it throws;
  \<^item> \<open>Date_parse\<close>: \<open>Date.parse\<close>;
  \<^item> \<open>promptProjectName\<close>: the trimmed answer to the prompt (lines 33 to 41);
  \<^item> \<open>path_resolve\<close>: \<open>path.resolve(process.cwd(), rawName)\<close>;
  \<^item> \<open>mkdtemp_path\<close>: the directory that \<open>mkdtemp\<close> creates, or its error;
  \<^item> \<open>mkdir\<close>, \<open>tar_x\<close>, \<open>unzip\<close>: the library calls of lines 259 to 263, as functions
    on the file system;
  \<^item> \<open>makeExecutablesUnder\<close> (lines 214 to 232) and \<open>runNpmInstall\<close> (lines 199 to 212),
    likewise: no property below depends on what they do;
  \<^item> \<open>rm_fault\<close>: when the final \<open>rm\<close> fails, its error and the paths that it has
    left in place.
\<close>

record world =
  net :: "nat \<Rightarrow> string \<Rightarrow> reply"
  new_URL :: "string \<Rightarrow> string \<Rightarrow> string option"
  pipeline_fault :: "nat \<Rightarrow> (js_error \<times> string option) option"
  JSON_parse_latest :: "string \<Rightarrow> latest_release option"
  JSON_parse_releases :: "string \<Rightarrow> release list option"
  Date_parse :: date_parse
  promptProjectName :: "string outcome"
  path_resolve :: "string \<Rightarrow> path"
  mkdtemp_path :: "js_error + path"
  mkdir :: "path \<Rightarrow> (path \<Rightarrow> node option) \<Rightarrow> unit outcome \<times> (path \<Rightarrow> node option)"
  tar_x :: "path \<Rightarrow> path \<Rightarrow> (path \<Rightarrow> node option) \<Rightarrow> unit outcome \<times> (path \<Rightarrow> node option)"
  unzip :: "path \<Rightarrow> path \<Rightarrow> (path \<Rightarrow> node option) \<Rightarrow> unit outcome \<times> (path \<Rightarrow> node option)"
  makeExecutablesUnder :: "path \<Rightarrow> (path \<Rightarrow> node option) \<Rightarrow> unit outcome \<times> (path \<Rightarrow> node option)"
  runNpmInstall :: "path \<Rightarrow> (path \<Rightarrow> node option) \<Rightarrow> unit outcome \<times> (path \<Rightarrow> node option)"
  rm_fault :: "(js_error \<times> (path \<Rightarrow> bool)) option"

section \<open>The HTTP operations: \<open>requestJson\<close> and \<open>downloadToFile\<close>\<close>

definition maxRedirects :: nat where
  "maxRedirects = 5"

text \<open>\<open>res.statusCode ?? 0\<close>.\<close>

definition status_of :: "response \<Rightarrow> nat" where
  "status_of res = (case statusCode res of None \<Rightarrow> 0 | Some n \<Rightarrow> n)"

text \<open>\<open>requestJson\<close> (lines 59 to 104).  The recursive call is the one of line 80; it is
  made only when \<open>redirects < maxRedirects\<close>, which is the termination argument.\<close>

function requestJson ::
  "world \<Rightarrow> (string \<Rightarrow> 'a option) \<Rightarrow> string \<Rightarrow> nat \<Rightarrow> sys \<Rightarrow> 'a outcome \<times> sys" where
  "requestJson w parse url redirects s =
     (let s' = s\<lparr>requests := Suc (requests s)\<rparr> in
      case net w (requests s) url of
        ReqError e \<Rightarrow> (Rejected e, s')
      | Response res \<Rightarrow>
          let status = status_of res; loc = or_empty (location res) in
          if 300 \<le> status \<and> status < 400 \<and> loc \<noteq> [] \<and> redirects < maxRedirects then
            (case new_URL w loc url of
               None \<Rightarrow> (Uncaught TypeError, s')
             | Some nextUrl \<Rightarrow> requestJson w parse nextUrl (redirects + 1) s')
          else if status < 200 \<or> 300 \<le> status then
            (Rejected (Error (''Request failed with status '' @ show_nat status)), s')
          else
            (case parse (body res) of
               None \<Rightarrow> (Rejected SyntaxError, s')
             | Some v \<Rightarrow> (Resolved v, s')))"
  by pat_completeness auto
termination
  by (relation "measure (\<lambda>(w, parse, url, redirects, s). maxRedirects - redirects)") auto

text \<open>\<open>downloadToFile\<close> (lines 106 to 142).  On a 2xx response the file at \<open>filePath\<close> is
  opened and the body is piped into it.\<close>

function downloadToFile ::
  "world \<Rightarrow> string \<Rightarrow> path \<Rightarrow> nat \<Rightarrow> sys \<Rightarrow> unit outcome \<times> sys" where
  "downloadToFile w url filePath redirects s =
     (let s' = s\<lparr>requests := Suc (requests s)\<rparr> in
      case net w (requests s) url of
        ReqError e \<Rightarrow> (Rejected e, s')
      | Response res \<Rightarrow>
          let status = status_of res; loc = or_empty (location res) in
          if 300 \<le> status \<and> status < 400 \<and> loc \<noteq> [] \<and> redirects < maxRedirects then
            (case new_URL w loc url of
               None \<Rightarrow> (Uncaught TypeError, s')
             | Some nextUrl \<Rightarrow> downloadToFile w nextUrl filePath (redirects + 1) s')
          else if status < 200 \<or> 300 \<le> status then
            (Rejected (Error (''Download failed with status '' @ show_nat status)), s')
          else
            (case pipeline_fault w (requests s) of
               None \<Rightarrow> (Resolved (), s'\<lparr>files := (files s')(filePath \<mapsto> File (body res))\<rparr>)
             | Some (e, None) \<Rightarrow> (Rejected e, s')
             | Some (e, Some part) \<Rightarrow>
                 (Rejected e, s'\<lparr>files := (files s')(filePath \<mapsto> File part)\<rparr>)))"
  by pat_completeness auto
termination
  by (relation "measure (\<lambda>(w, url, filePath, redirects, s). maxRedirects - redirects)") auto

declare requestJson.simps [simp del] downloadToFile.simps [simp del]

text \<open>The condition of the first \<open>if\<close> of both callbacks (lines 72 to 77 and 118 to 123).\<close>

definition valid_redirect :: "response \<Rightarrow> nat \<Rightarrow> bool" where
  "valid_redirect res redirects \<longleftrightarrow>
     300 \<le> status_of res \<and> status_of res < 400 \<and> or_empty (location res) \<noteq> [] \<and>
     redirects < maxRedirects"

section \<open>The resolver: \<open>fetchLatestTag\<close> and \<open>fetchLatestBinaryZipUrl\<close>\<close>

definition REPO :: string where
  "REPO = ''frame-script/FrameScript''"

definition LATEST_RELEASE_URL :: string where
  "LATEST_RELEASE_URL = ''https://api.github.com/repos/'' @ REPO @ ''/releases/latest''"

definition RELEASES_URL :: string where
  "RELEASES_URL = ''https://api.github.com/repos/'' @ REPO @ ''/releases?per_page=100''"

text \<open>\<open>fetchLatestTag\<close> (lines 144 to 151); \<open>!tag\<close> holds for an absent and for an empty
  \<open>tag_name\<close>.\<close>

definition fetchLatestTag :: "world \<Rightarrow> sys \<Rightarrow> string outcome \<times> sys" where
  "fetchLatestTag w s =
     await (requestJson w (JSON_parse_latest w) LATEST_RELEASE_URL 0 s)
       (\<lambda>data s'. let tag = tag_name data in
          if or_empty tag = [] then (Rejected (Error ''Latest release tag not found.''), s')
          else (Resolved (or_empty tag), s'))"

text \<open>\<open>fetchLatestBinaryZipUrl\<close> (lines 190 to 197).\<close>

definition fetchLatestBinaryZipUrl :: "world \<Rightarrow> sys \<Rightarrow> string outcome \<times> sys" where
  "fetchLatestBinaryZipUrl w s =
     await (requestJson w (JSON_parse_releases w) RELEASES_URL 0 s)
       (\<lambda>releases s'.
          case pickLatestReleaseWithBinZip (Date_parse w) releases of
            None \<Rightarrow> (Rejected (Error ''Release with bin.zip not found.''), s')
          | Some latest \<Rightarrow> (Resolved (snd latest), s'))"

section \<open>The program: \<open>main\<close>\<close>

text \<open>A library call that acts on the file system only.\<close>

definition on_files ::
  "((path \<Rightarrow> node option) \<Rightarrow> unit outcome \<times> (path \<Rightarrow> node option)) \<Rightarrow> sys \<Rightarrow> unit outcome \<times> sys" where
  "on_files f s = (case f (files s) of (r, fs') \<Rightarrow> (r, s\<lparr>files := fs'\<rparr>))"

text \<open>\<open>mkdtemp\<close> (line 253) creates the directory whose path it returns.\<close>

definition mkdtemp :: "world \<Rightarrow> sys \<Rightarrow> path outcome \<times> sys" where
  "mkdtemp w s =
     (case mkdtemp_path w of
        Inl e \<Rightarrow> (Rejected e, s)
      | Inr p \<Rightarrow> (Resolved p, s\<lparr>files := (files s)(p \<mapsto> Dir)\<rparr>))"

text \<open>\<open>rm(dir, { recursive: true, force: true })\<close> (line 266) removes \<open>dir\<close> and everything
  below it; when it fails, some of these paths are left in place.\<close>

definition rm :: "world \<Rightarrow> path \<Rightarrow> sys \<Rightarrow> unit outcome \<times> sys" where
  "rm w dir s =
     (case rm_fault w of
        Some (e, left) \<Rightarrow>
          (Rejected e,
           s\<lparr>files := (\<lambda>p. if prefix dir p \<and> \<not> left p then None else files s p)\<rparr>)
      | None \<Rightarrow> (Resolved (), s\<lparr>files := (\<lambda>p. if prefix dir p then None else files s p)\<rparr>))"

text \<open>The two downloads (lines 257 and 258), into \<open>tarPath\<close> and \<open>zipPath\<close> of lines 254
  and 255.\<close>

definition main_downloads :: "world \<Rightarrow> path \<Rightarrow> string \<Rightarrow> string \<Rightarrow> sys \<Rightarrow> unit outcome \<times> sys" where
  "main_downloads w tmpDir tarballUrl binaryZipUrl s =
     await (downloadToFile w tarballUrl (tmpDir @ [''template.tgz'']) 0 s)
       (\<lambda>_ s1. downloadToFile w binaryZipUrl (tmpDir @ [''bin.zip'']) 0 s1)"

text \<open>Creating and filling the target directory (lines 259 to 264).\<close>

definition main_extract :: "world \<Rightarrow> path \<Rightarrow> path \<Rightarrow> sys \<Rightarrow> unit outcome \<times> sys" where
  "main_extract w tmpDir targetDir s =
     await (on_files (mkdir w targetDir) s) (\<lambda>_ s1.
     await (on_files (tar_x w (tmpDir @ [''template.tgz'']) targetDir) s1) (\<lambda>_ s2.
     let binDir = targetDir @ [''bin''] in
     await (on_files (mkdir w binDir) s2) (\<lambda>_ s3.
     await (on_files (unzip w (tmpDir @ [''bin.zip'']) binDir) s3) (\<lambda>_ s4.
     on_files (makeExecutablesUnder w binDir) s4))))"

text \<open>Lines 253 to 267 of \<open>main\<close>: the temporary directory, the \<open>try\<close> block and its
  \<open>finally\<close>.\<close>

definition main_block :: "world \<Rightarrow> path \<Rightarrow> string \<Rightarrow> string \<Rightarrow> sys \<Rightarrow> unit outcome \<times> sys" where
  "main_block w targetDir tarballUrl binaryZipUrl s =
     await (mkdtemp w s) (\<lambda>tmpDir s0.
       try_finally
         (await (main_downloads w tmpDir tarballUrl binaryZipUrl s0)
            (\<lambda>_ s2. main_extract w tmpDir targetDir s2))
         (rm w tmpDir))"

text \<open>\<open>main\<close> (lines 234 to 273), for the command line arguments \<open>args\<close>; it runs when
  they contain no help flag (lines 27 to 31).  What it writes to the terminal is not
  part of the state.\<close>

definition main :: "world \<Rightarrow> string list \<Rightarrow> sys \<Rightarrow> unit outcome \<times> sys" where
  "main w args s =
     await (case args of [] \<Rightarrow> (promptProjectName w, s) | a # _ \<Rightarrow> (Resolved a, s))
       (\<lambda>rawName s.
          if rawName = [] then (Exit 1, s)
          else let targetDir = path_resolve w rawName in
            if files s targetDir \<noteq> None then (Exit 1, s)
            else
              await (fetchLatestTag w s) (\<lambda>tag s.
              let tarballUrl = ''https://codeload.github.com/'' @ REPO @ ''/tar.gz/'' @ tag in
              await (fetchLatestBinaryZipUrl w s) (\<lambda>binaryZipUrl s.
              await (main_block w targetDir tarballUrl binaryZipUrl s) (\<lambda>_ s.
              on_files (runNpmInstall w targetDir) s))))"

section \<open>Concrete inputs for the worked examples\<close>

text \<open>A date parser for the examples: the date-only form \<open>YYYY-MM-DD\<close> of the ECMAScript
  date-time string format, read as midnight UTC in milliseconds since the epoch, and
  \<open>NaN\<close> for every other string.  On calendar dates in that form, on the empty string
  and on strings without a digit it returns what \<open>Date.parse\<close> returns.  The theorems
  below hold for every parser; this one only evaluates the examples.\<close>

definition days_from_civil :: "int \<Rightarrow> int \<Rightarrow> int \<Rightarrow> int" where
  "days_from_civil y m d =
     (let y' = (if m \<le> 2 then y - 1 else y);
          era = y' div 400;
          yoe = y' - era * 400;
          doy = (153 * (if m > 2 then m - 3 else m + 9) + 2) div 5 + d - 1;
          doe = yoe * 365 + yoe div 4 - yoe div 100 + doy
      in era * 146097 + doe - 719468)"

definition iso_date_parse :: date_parse where
  "iso_date_parse s =
     (if length s = 10 \<and> s ! 4 = CHR ''-'' \<and> s ! 7 = CHR ''-'' then
        (case (digits_val (take 4 s) 0, digits_val (take 2 (drop 5 s)) 0,
               digits_val (drop 8 s) 0) of
           (Some y, Some m, Some d) \<Rightarrow>
             if 1 \<le> m \<and> m \<le> 12 \<and> 1 \<le> d \<and> d \<le> 31
             then Some (86400000 * days_from_civil (int y) (int m) (int d)) else None
         | _ \<Rightarrow> None)
      else None)"

text \<open>The three releases of the example of the specification.\<close>

definition ex_v1 :: release where
  "ex_v1 = \<lparr>name = Some ''v1'', created_at = None, published_at = Some ''2024-01-01'',
     draft = None,
     assets = Some [\<lparr>asset_name = Some ''bin.zip'', browser_download_url = Some ''A''\<rparr>]\<rparr>"

definition ex_v2 :: release where
  "ex_v2 = \<lparr>name = Some ''v2'', created_at = None, published_at = Some ''2024-06-01'',
     draft = None,
     assets = Some [\<lparr>asset_name = Some ''bin.zip'', browser_download_url = Some ''B''\<rparr>]\<rparr>"

definition ex_v3 :: release where
  "ex_v3 = \<lparr>name = Some ''v3'', created_at = None, published_at = Some ''2024-12-01'',
     draft = Some True,
     assets = Some [\<lparr>asset_name = Some ''bin.zip'', browser_download_url = Some ''C''\<rparr>]\<rparr>"

text \<open>A release whose only asset is named \<open>bin.zip\<close> and has no download URL.\<close>

definition ex_no_url :: release where
  "ex_no_url = \<lparr>name = Some ''v4'', created_at = None, published_at = Some ''2024-01-01'',
     draft = None,
     assets = Some [\<lparr>asset_name = Some ''bin.zip'', browser_download_url = None\<rparr>]\<rparr>"

text \<open>A release whose \<open>published_at\<close> is not a date and whose \<open>created_at\<close> is one.\<close>

definition ex_unparsed :: release where
  "ex_unparsed = \<lparr>name = Some ''v5'', created_at = Some ''2024-06-01'',
     published_at = Some ''unknown'', draft = None,
     assets = Some [\<lparr>asset_name = Some ''bin.zip'', browser_download_url = Some ''E''\<rparr>]\<rparr>"

text \<open>A release with two assets under the name: the first without a download URL, the
  second with one.\<close>

definition ex_shadowed :: release where
  "ex_shadowed = \<lparr>name = Some ''v6'', created_at = None, published_at = Some ''2024-06-01'',
     draft = None,
     assets = Some [\<lparr>asset_name = Some ''notes.txt'', browser_download_url = Some ''N''\<rparr>,
                    \<lparr>asset_name = Some ''BIN.zip'', browser_download_url = None\<rparr>,
                    \<lparr>asset_name = Some ''bin.zip'', browser_download_url = Some ''F''\<rparr>]\<rparr>"

text \<open>The starting state: an empty file system, no request sent.\<close>

definition sys0 :: sys where
  "sys0 = \<lparr>files = (\<lambda>p. None), requests = 0\<rparr>"

text \<open>A server that answers every request with 404.\<close>

definition not_found_world :: world where
  "not_found_world =
     \<lparr>net = (\<lambda>t url. Response \<lparr>statusCode = Some 404, location = None, body = []\<rparr>),
      new_URL = (\<lambda>loc base. Some loc),
      pipeline_fault = (\<lambda>t. None),
      JSON_parse_latest = (\<lambda>b. None),
      JSON_parse_releases = (\<lambda>b. None),
      Date_parse = iso_date_parse,
      promptProjectName = Resolved ''my-project'',
      path_resolve = (\<lambda>n. [''home'', ''user'', n]),
      mkdtemp_path = Inr [''tmp'', ''frame-script-abc123''],
      mkdir = (\<lambda>p fs. (Resolved (), fs(p \<mapsto> Dir))),
      tar_x = (\<lambda>file cwd fs. (Resolved (), fs(cwd @ [''package.json''] \<mapsto> File ''{}''))),
      unzip = (\<lambda>file dir fs. (Resolved (), fs(dir @ [''frame''] \<mapsto> File ''ELF''))),
      makeExecutablesUnder = (\<lambda>dir fs. (Resolved (), fs)),
      runNpmInstall = (\<lambda>cwd fs. (Resolved (), fs)),
      rm_fault = None\<rparr>"

text \<open>A server that redirects every request, for ever.\<close>

definition redirect_world :: world where
  "redirect_world = not_found_world
     \<lparr>net := (\<lambda>t url. Response \<lparr>statusCode = Some 302, location = Some ''/again'', body = []\<rparr>),
      new_URL := (\<lambda>loc base. Some base)\<rparr>"

text \<open>A server that answers every request with 200 and the body
  \<open>{"tag_name":"v1.2.0"}\<close>, which \<open>JSON.parse\<close> reads as a release with that tag; every
  other body is malformed.\<close>

definition latest_body :: string where
  "latest_body = ''{'' @ [CHR 0x22] @ ''tag_name'' @ [CHR 0x22] @ '':'' @ [CHR 0x22] @ ''v1.2.0''
     @ [CHR 0x22] @ ''}''"

definition tag_world :: world where
  "tag_world = not_found_world
     \<lparr>net := (\<lambda>t url. Response \<lparr>statusCode = Some 200, location = None, body = latest_body\<rparr>),
      JSON_parse_latest :=
        (\<lambda>b. if b = latest_body then Some \<lparr>tag_name = Some ''v1.2.0''\<rparr> else None)\<rparr>"

text \<open>A server that answers every request with 200; the transfer of the second response
  breaks off after two bytes.\<close>

definition broken_world :: world where
  "broken_world = not_found_world
     \<lparr>net := (\<lambda>t url. Response \<lparr>statusCode = Some 200, location = None, body = ''archive''\<rparr>),
      pipeline_fault := (\<lambda>t. if t = 1 then Some (Error ''aborted'', Some ''ar'') else None)\<rparr>"

text \<open>A server that answers the first request with 404 and every later one with 200.\<close>

definition tarball_missing_world :: world where
  "tarball_missing_world = not_found_world
     \<lparr>net := (\<lambda>t url.
         if t = 0 then Response \<lparr>statusCode = Some 404, location = None, body = []\<rparr>
         else Response \<lparr>statusCode = Some 200, location = None, body = ''archive''\<rparr>)\<rparr>"

section \<open>Properties of the selection\<close>

subsection \<open>Matching the asset name\<close>

lemma of_char_toLowerCase_char:
  "(of_char (toLowerCase_char c) :: nat) =
     (let n = of_char c in if 65 \<le> n \<and> n \<le> 90 then n + 32 else n)"
  by (simp add: toLowerCase_char_def Let_def)

lemma toLowerCase_char_eq_iff:
  "toLowerCase_char c = d \<longleftrightarrow>
     (let n = (of_char c :: nat) in (if 65 \<le> n \<and> n \<le> 90 then n + 32 else n) = of_char d)"
proof -
  have "toLowerCase_char c = d \<longleftrightarrow> (of_char (toLowerCase_char c) :: nat) = of_char d"
    by simp
  then show ?thesis
    by (simp add: of_char_toLowerCase_char Let_def)
qed

lemma char_eq_code: "c = d \<longleftrightarrow> (of_char c :: nat) = of_char d"
  by simp

lemma lower_b: "toLowerCase_char c = CHR ''b'' \<longleftrightarrow> c = CHR ''b'' \<or> c = CHR ''B''"
  by (auto simp: toLowerCase_char_eq_iff Let_def char_eq_code[of c])

lemma lower_i: "toLowerCase_char c = CHR ''i'' \<longleftrightarrow> c = CHR ''i'' \<or> c = CHR ''I''"
  by (auto simp: toLowerCase_char_eq_iff Let_def char_eq_code[of c])

lemma lower_n: "toLowerCase_char c = CHR ''n'' \<longleftrightarrow> c = CHR ''n'' \<or> c = CHR ''N''"
  by (auto simp: toLowerCase_char_eq_iff Let_def char_eq_code[of c])

lemma lower_z: "toLowerCase_char c = CHR ''z'' \<longleftrightarrow> c = CHR ''z'' \<or> c = CHR ''Z''"
  by (auto simp: toLowerCase_char_eq_iff Let_def char_eq_code[of c])

lemma lower_p: "toLowerCase_char c = CHR ''p'' \<longleftrightarrow> c = CHR ''p'' \<or> c = CHR ''P''"
  by (auto simp: toLowerCase_char_eq_iff Let_def char_eq_code[of c])

lemma lower_dot: "toLowerCase_char c = CHR ''.'' \<longleftrightarrow> c = CHR ''.''"
  by (auto simp: toLowerCase_char_eq_iff Let_def char_eq_code[of c])

lemma map_eq_seven:
  "map f s = [x1, x2, x3, x4, x5, x6, x7] \<longleftrightarrow>
   (\<exists>c1 c2 c3 c4 c5 c6 c7. s = [c1, c2, c3, c4, c5, c6, c7] \<and> f c1 = x1 \<and> f c2 = x2 \<and>
      f c3 = x3 \<and> f c4 = x4 \<and> f c5 = x5 \<and> f c6 = x6 \<and> f c7 = x7)"
  by (auto simp: map_eq_Cons_conv)

lemma toLowerCase_bin_zip:
  "toLowerCase s = ''bin.zip'' \<longleftrightarrow>
     (\<exists>c1 c2 c3 c5 c6 c7. s = [c1, c2, c3, CHR ''.'', c5, c6, c7] \<and>
        (c1 = CHR ''b'' \<or> c1 = CHR ''B'') \<and> (c2 = CHR ''i'' \<or> c2 = CHR ''I'') \<and>
        (c3 = CHR ''n'' \<or> c3 = CHR ''N'') \<and> (c5 = CHR ''z'' \<or> c5 = CHR ''Z'') \<and>
        (c6 = CHR ''i'' \<or> c6 = CHR ''I'') \<and> (c7 = CHR ''p'' \<or> c7 = CHR ''P''))"
  unfolding toLowerCase_def map_eq_seven lower_b lower_i lower_n lower_z lower_p lower_dot
  by blast

text \<open>
  \<^bold>\<open>C4.\<close>  The name of an asset is compared without regard to letter case: the predicate
  given to \<open>find\<close> holds exactly for the assets that have a name of seven characters,
  each of them the corresponding character of \<open>bin.zip\<close> in lower or in upper case
  (so exactly when lower-casing the name gives \<open>bin.zip\<close>; an asset without a name does
  not match).  In particular an asset named \<open>Bin.ZIP\<close> matches.
\<close>

theorem asset_name_match_ignores_case:
  "(is_bin_zip a \<longleftrightarrow>
     (\<exists>c1 c2 c3 c5 c6 c7. asset_name a = Some [c1, c2, c3, CHR ''.'', c5, c6, c7] \<and>
        (c1 = CHR ''b'' \<or> c1 = CHR ''B'') \<and> (c2 = CHR ''i'' \<or> c2 = CHR ''I'') \<and>
        (c3 = CHR ''n'' \<or> c3 = CHR ''N'') \<and> (c5 = CHR ''z'' \<or> c5 = CHR ''Z'') \<and>
        (c6 = CHR ''i'' \<or> c6 = CHR ''I'') \<and> (c7 = CHR ''p'' \<or> c7 = CHR ''P''))) \<and>
   (is_bin_zip a \<longleftrightarrow> toLowerCase (or_empty (asset_name a)) = ''bin.zip'') \<and>
   is_bin_zip \<lparr>asset_name = Some ''Bin.ZIP'', browser_download_url = u\<rparr>"
proof -
  have "or_empty (asset_name a) = [c1, c2, c3, CHR ''.'', c5, c6, c7] \<longleftrightarrow>
        asset_name a = Some [c1, c2, c3, CHR ''.'', c5, c6, c7]" for c1 c2 c3 c5 c6 c7
    by (cases "asset_name a") (simp_all add: or_empty_def)
  then have "is_bin_zip a \<longleftrightarrow>
     (\<exists>c1 c2 c3 c5 c6 c7. asset_name a = Some [c1, c2, c3, CHR ''.'', c5, c6, c7] \<and>
        (c1 = CHR ''b'' \<or> c1 = CHR ''B'') \<and> (c2 = CHR ''i'' \<or> c2 = CHR ''I'') \<and>
        (c3 = CHR ''n'' \<or> c3 = CHR ''N'') \<and> (c5 = CHR ''z'' \<or> c5 = CHR ''Z'') \<and>
        (c6 = CHR ''i'' \<or> c6 = CHR ''I'') \<and> (c7 = CHR ''p'' \<or> c7 = CHR ''P''))"
    by (simp add: is_bin_zip_def toLowerCase_bin_zip)
  moreover have "is_bin_zip \<lparr>asset_name = Some ''Bin.ZIP'', browser_download_url = u\<rparr>"
    by (simp add: is_bin_zip_def toLowerCase_bin_zip or_empty_def)
  ultimately show ?thesis
    by (simp add: is_bin_zip_def)
qed

theorem asset_name_match_ignores_case_witness:
  "is_bin_zip \<lparr>asset_name = Some ''BIN.zip'', browser_download_url = None\<rparr> \<and>
   \<not> is_bin_zip \<lparr>asset_name = Some ''bin.zip.sig'', browser_download_url = None\<rparr> \<and>
   \<not> is_bin_zip \<lparr>asset_name = None, browser_download_url = Some ''A''\<rparr>"
  using asset_name_match_ignores_case
          [of "\<lparr>asset_name = Some ''BIN.zip'', browser_download_url = None\<rparr>"]
        asset_name_match_ignores_case
          [of "\<lparr>asset_name = Some ''bin.zip.sig'', browser_download_url = None\<rparr>"]
        asset_name_match_ignores_case
          [of "\<lparr>asset_name = None, browser_download_url = Some ''A''\<rparr>"]
  by simp

subsection \<open>One iteration of the loop\<close>

lemma time_Some: "time dp r = Some (effective_time dp r)"
  by (auto simp: time_def effective_time_def num_or_def truthy_num_def split: option.splits)

lemma latestTime_consistent:
  assumes "dp [] = None" and "dates_consistent dp r"
  shows "latestTime dp (Some (r, u)) = Some (effective_time dp r)"
  using assms
  by (cases "published_at r"; cases "created_at r")
     (auto simp: latestTime_def time_def effective_time_def dates_consistent_def num_or_def
        truthy_num_def str_or_def or_empty_def nullish_def Let_def split: option.splits)

lemma pick_step_skip: "\<not> qualifies r \<Longrightarrow> pick_step dp latest r = latest"
  by (auto simp: pick_step_def qualifies_def Let_def)

lemma pick_step_first:
  "qualifies r \<Longrightarrow> pick_step dp None r = Some (r, or_empty (asset_url r))"
  by (auto simp: pick_step_def qualifies_def Let_def)

lemma pick_step_later:
  assumes "dp [] = None" and "dates_consistent dp b" and "qualifies r"
  shows "pick_step dp (Some (b, ub)) r =
      (if effective_time dp b < effective_time dp r then Some (r, or_empty (asset_url r))
       else Some (b, ub))"
  using assms(3)
  by (auto simp: pick_step_def qualifies_def Let_def latestTime_consistent[OF assms(1,2)]
        time_Some num_gt_def)

lemma pick_loop_append:
  "pick_loop dp (xs @ ys) latest = pick_loop dp ys (pick_loop dp xs latest)"
  by (induction xs arbitrary: latest) simp_all

subsection \<open>What can be selected\<close>

lemma qualifies_has_asset:
  assumes "qualifies r"
  shows "\<exists>as a. assets r = Some as \<and> a \<in> set as \<and> is_bin_zip a \<and>
            browser_download_url a = Some (or_empty (asset_url r))"
proof -
  from assms have u: "or_empty (asset_url r) \<noteq> []"
    by (simp add: qualifies_def)
  then obtain a where a: "find_asset r = Some a" "browser_download_url a = asset_url r"
    by (cases "find_asset r") (auto simp: asset_url_def or_empty_def)
  then obtain as where as: "assets r = Some as" "find is_bin_zip as = Some a"
    by (cases "assets r") (auto simp: find_asset_def)
  from as(2) have "a \<in> set as \<and> is_bin_zip a"
    by (auto simp: find_Some_iff)
  moreover from u a(2) have "browser_download_url a = Some (or_empty (asset_url r))"
    by (cases "asset_url r") (auto simp: or_empty_def)
  ultimately show ?thesis
    using as(1) by blast
qed

lemma pick_step_selectable:
  "selectable rs latest \<Longrightarrow> r \<in> set rs \<Longrightarrow> selectable rs (pick_step dp latest r)"
  by (auto simp: pick_step_def selectable_def qualifies_def Let_def split: option.splits)

lemma pick_loop_selectable:
  "selectable rs latest \<Longrightarrow> set xs \<subseteq> set rs \<Longrightarrow> selectable rs (pick_loop dp xs latest)"
  by (induction xs arbitrary: latest) (auto intro: pick_step_selectable)

text \<open>
  \<^bold>\<open>C3.\<close>  Whatever the list of releases and whatever \<open>Date.parse\<close> does: when the
  selection returns a release and a URL, the release is one of the list, it is not a
  draft, and one of its assets has a name that is \<open>bin.zip\<close> up to letter case and
  carries that URL, which is not empty.  So a draft is never selected, however new, and
  neither is a release without the asset.
\<close>

theorem selection_is_published_with_asset:
  assumes "pickLatestReleaseWithBinZip dp releases = Some (r, u)"
  shows "r \<in> set releases \<and> draft r \<noteq> Some True \<and>
     (\<exists>as a. assets r = Some as \<and> a \<in> set as \<and>
        toLowerCase (or_empty (asset_name a)) = ''bin.zip'' \<and>
        browser_download_url a = Some u \<and> u \<noteq> [])"
proof -
  have "selectable releases (pick_loop dp releases None)"
    by (rule pick_loop_selectable) (simp_all add: selectable_def)
  with assms have r: "r \<in> set releases" "qualifies r" "u = or_empty (asset_url r)"
    by (simp_all add: pickLatestReleaseWithBinZip_def selectable_def)
  from qualifies_has_asset[OF r(2)] r show ?thesis
    by (auto simp: qualifies_def is_bin_zip_def)
qed

lemma example_draft_newest:
  "pickLatestReleaseWithBinZip iso_date_parse [ex_v3, ex_v1] = Some (ex_v1, ''A'')"
  by code_simp

theorem selection_is_published_with_asset_witness:
  "pickLatestReleaseWithBinZip iso_date_parse [ex_v3, ex_v1] = Some (ex_v1, ''A'') \<and>
   draft ex_v3 = Some True \<and> draft ex_v1 = None \<and>
   assets ex_v1 = Some [\<lparr>asset_name = Some ''bin.zip'', browser_download_url = Some ''A''\<rparr>]"
  using selection_is_published_with_asset[OF example_draft_newest] example_draft_newest
  by (simp add: ex_v1_def ex_v3_def)

subsection \<open>A first matching asset without a URL\<close>

lemma find_first:
  "\<forall>x\<in>set pre. \<not> P x \<Longrightarrow> P a \<Longrightarrow> find P (pre @ a # post) = Some a"
  by (induction pre) simp_all

text \<open>
  \<^bold>\<open>C10.\<close>  Only the first asset whose name matches is asked for its download URL.  If the
  assets of a release are \<open>pre @ a # post\<close>, no asset of \<open>pre\<close> matches, \<open>a\<close> matches and
  has no download URL (none, or the empty string), then the release is skipped: the
  selection returns what it returns for the list without that release, whatever \<open>post\<close>
  contains.
\<close>

theorem first_match_without_url_skips_release:
  assumes "assets r = Some (pre @ a # post)"
    and "\<forall>x\<in>set pre. \<not> is_bin_zip x"
    and "is_bin_zip a"
    and "or_empty (browser_download_url a) = []"
  shows "pickLatestReleaseWithBinZip dp (xs @ r # ys) = pickLatestReleaseWithBinZip dp (xs @ ys)"
proof -
  have "find_asset r = Some a"
    using assms(1-3) by (simp add: find_asset_def find_first)
  then have "\<not> qualifies r"
    using assms(4) by (simp add: qualifies_def asset_url_def)
  then show ?thesis
    by (simp add: pickLatestReleaseWithBinZip_def pick_loop_append pick_step_skip)
qed

theorem first_match_without_url_skips_release_witness:
  "is_bin_zip \<lparr>asset_name = Some ''BIN.zip'', browser_download_url = None\<rparr> \<and>
   is_bin_zip \<lparr>asset_name = Some ''bin.zip'', browser_download_url = Some ''F''\<rparr> \<and>
   pickLatestReleaseWithBinZip iso_date_parse [ex_shadowed] = None \<and>
   pickLatestReleaseWithBinZip iso_date_parse [ex_v1, ex_shadowed]
     = pickLatestReleaseWithBinZip iso_date_parse [ex_v1]"
proof -
  let ?first = "\<lparr>asset_name = Some ''BIN.zip'', browser_download_url = None\<rparr>"
  let ?second = "\<lparr>asset_name = Some ''bin.zip'', browser_download_url = Some ''F''\<rparr>"
  let ?notes = "\<lparr>asset_name = Some ''notes.txt'', browser_download_url = Some ''N''\<rparr>"
  have a: "assets ex_shadowed = Some ([?notes] @ ?first # [?second])"
    by (simp add: ex_shadowed_def)
  have m1: "is_bin_zip ?first" by code_simp
  have m2: "is_bin_zip ?second" by code_simp
  have n: "\<forall>x\<in>set [?notes]. \<not> is_bin_zip x" by (simp add: is_bin_zip_def toLowerCase_bin_zip or_empty_def)
  have u: "or_empty (browser_download_url ?first) = []" by (simp add: or_empty_def)
  have e: "pickLatestReleaseWithBinZip iso_date_parse [] = None"
    by (simp add: pickLatestReleaseWithBinZip_def)
  show ?thesis
    using first_match_without_url_skips_release[OF a n m1 u, of iso_date_parse "[]" "[]"]
      first_match_without_url_skips_release[OF a n m1 u, of iso_date_parse "[ex_v1]" "[]"]
      m1 m2 e
    by simp
qed

subsection \<open>The newest qualifying release\<close>

text \<open>The loop once it holds a release \<open>b\<close>: either \<open>b\<close> stays, and nothing that
  qualifies in the rest of the list is newer; or the result is the first release of
  the rest that is strictly newer than \<open>b\<close> and at least as new as all others.\<close>

lemma pick_loop_Some:
  assumes "dp [] = None"
  shows "\<forall>r\<in>set rs. qualifies r \<longrightarrow> dates_consistent dp r \<Longrightarrow> dates_consistent dp b \<Longrightarrow>
    (pick_loop dp rs (Some (b, ub)) = Some (b, ub) \<and>
       (\<forall>j<length rs. qualifies (rs ! j) \<longrightarrow>
          effective_time dp (rs ! j) \<le> effective_time dp b)) \<or>
    (\<exists>i<length rs. qualifies (rs ! i) \<and>
       pick_loop dp rs (Some (b, ub)) = Some (rs ! i, or_empty (asset_url (rs ! i))) \<and>
       effective_time dp b < effective_time dp (rs ! i) \<and>
       (\<forall>j<length rs. qualifies (rs ! j) \<longrightarrow>
          effective_time dp (rs ! j) \<le> effective_time dp (rs ! i)) \<and>
       (\<forall>j<i. qualifies (rs ! j) \<longrightarrow>
          effective_time dp (rs ! j) < effective_time dp (rs ! i)))"
proof (induction rs arbitrary: b ub)
  case Nil
  then show ?case by simp
next
  case (Cons r rs)
  let ?T = "effective_time dp"
  have rs_ok: "\<forall>x\<in>set rs. qualifies x \<longrightarrow> dates_consistent dp x"
    using Cons.prems(1) by simp
  show ?case
  proof (cases "qualifies r \<and> ?T b < ?T r")
    case True
    then have step: "pick_step dp (Some (b, ub)) r = Some (r, or_empty (asset_url r))"
      using pick_step_later[OF assms Cons.prems(2)] by simp
    have r_ok: "dates_consistent dp r"
      using True Cons.prems(1) by simp
    from Cons.IH[OF rs_ok r_ok, of "or_empty (asset_url r)"]
    show ?thesis
    proof (elim disjE conjE exE)
      assume kept: "pick_loop dp rs (Some (r, or_empty (asset_url r)))
                      = Some (r, or_empty (asset_url r))"
        and older: "\<forall>j<length rs. qualifies (rs ! j) \<longrightarrow> ?T (rs ! j) \<le> ?T r"
      have "0 < length (r # rs) \<and> qualifies ((r # rs) ! 0) \<and>
         pick_loop dp (r # rs) (Some (b, ub))
           = Some ((r # rs) ! 0, or_empty (asset_url ((r # rs) ! 0))) \<and>
         ?T b < ?T ((r # rs) ! 0) \<and>
         (\<forall>j<length (r # rs). qualifies ((r # rs) ! j) \<longrightarrow>
            ?T ((r # rs) ! j) \<le> ?T ((r # rs) ! 0)) \<and>
         (\<forall>j<0. qualifies ((r # rs) ! j) \<longrightarrow> ?T ((r # rs) ! j) < ?T ((r # rs) ! 0))"
        using True kept older step by (simp add: All_less_Suc2)
      then show ?thesis by blast
    next
      fix i
      assume i: "i < length rs" "qualifies (rs ! i)"
        "pick_loop dp rs (Some (r, or_empty (asset_url r)))
           = Some (rs ! i, or_empty (asset_url (rs ! i)))"
        "?T r < ?T (rs ! i)"
        "\<forall>j<length rs. qualifies (rs ! j) \<longrightarrow> ?T (rs ! j) \<le> ?T (rs ! i)"
        "\<forall>j<i. qualifies (rs ! j) \<longrightarrow> ?T (rs ! j) < ?T (rs ! i)"
      have "Suc i < length (r # rs) \<and> qualifies ((r # rs) ! Suc i) \<and>
         pick_loop dp (r # rs) (Some (b, ub))
           = Some ((r # rs) ! Suc i, or_empty (asset_url ((r # rs) ! Suc i))) \<and>
         ?T b < ?T ((r # rs) ! Suc i) \<and>
         (\<forall>j<length (r # rs). qualifies ((r # rs) ! j) \<longrightarrow>
            ?T ((r # rs) ! j) \<le> ?T ((r # rs) ! Suc i)) \<and>
         (\<forall>j<Suc i. qualifies ((r # rs) ! j) \<longrightarrow>
            ?T ((r # rs) ! j) < ?T ((r # rs) ! Suc i))"
        using True i step by (simp add: All_less_Suc2)
      then show ?thesis by blast
    qed
  next
    case False
    then have step: "pick_step dp (Some (b, ub)) r = Some (b, ub)"
      using pick_step_later[OF assms Cons.prems(2), of r ub] pick_step_skip[of r dp "Some (b, ub)"]
      by (cases "qualifies r") simp_all
    have le: "qualifies r \<longrightarrow> ?T r \<le> ?T b"
      using False by auto
    from Cons.IH[OF rs_ok Cons.prems(2), of ub]
    show ?thesis
    proof (elim disjE conjE exE)
      assume kept: "pick_loop dp rs (Some (b, ub)) = Some (b, ub)"
        and older: "\<forall>j<length rs. qualifies (rs ! j) \<longrightarrow> ?T (rs ! j) \<le> ?T b"
      have "pick_loop dp (r # rs) (Some (b, ub)) = Some (b, ub) \<and>
        (\<forall>j<length (r # rs). qualifies ((r # rs) ! j) \<longrightarrow> ?T ((r # rs) ! j) \<le> ?T b)"
        using kept older step le by (simp add: All_less_Suc2)
      then show ?thesis by blast
    next
      fix i
      assume i: "i < length rs" "qualifies (rs ! i)"
        "pick_loop dp rs (Some (b, ub)) = Some (rs ! i, or_empty (asset_url (rs ! i)))"
        "?T b < ?T (rs ! i)"
        "\<forall>j<length rs. qualifies (rs ! j) \<longrightarrow> ?T (rs ! j) \<le> ?T (rs ! i)"
        "\<forall>j<i. qualifies (rs ! j) \<longrightarrow> ?T (rs ! j) < ?T (rs ! i)"
      have "Suc i < length (r # rs) \<and> qualifies ((r # rs) ! Suc i) \<and>
         pick_loop dp (r # rs) (Some (b, ub))
           = Some ((r # rs) ! Suc i, or_empty (asset_url ((r # rs) ! Suc i))) \<and>
         ?T b < ?T ((r # rs) ! Suc i) \<and>
         (\<forall>j<length (r # rs). qualifies ((r # rs) ! j) \<longrightarrow>
            ?T ((r # rs) ! j) \<le> ?T ((r # rs) ! Suc i)) \<and>
         (\<forall>j<Suc i. qualifies ((r # rs) ! j) \<longrightarrow>
            ?T ((r # rs) ! j) < ?T ((r # rs) ! Suc i))"
        using i step le by (auto simp add: All_less_Suc2)
      then show ?thesis by blast
    qed
  qed
qed

text \<open>The loop before it holds a release: it takes the first release that qualifies
  and continues as above.\<close>

lemma pick_loop_None:
  assumes "dp [] = None"
  shows "\<forall>r\<in>set rs. qualifies r \<longrightarrow> dates_consistent dp r \<Longrightarrow> \<exists>r\<in>set rs. qualifies r \<Longrightarrow>
    \<exists>i<length rs. qualifies (rs ! i) \<and>
       pick_loop dp rs None = Some (rs ! i, or_empty (asset_url (rs ! i))) \<and>
       (\<forall>j<length rs. qualifies (rs ! j) \<longrightarrow>
          effective_time dp (rs ! j) \<le> effective_time dp (rs ! i)) \<and>
       (\<forall>j<i. qualifies (rs ! j) \<longrightarrow>
          effective_time dp (rs ! j) < effective_time dp (rs ! i))"
proof (induction rs)
  case Nil
  then show ?case by simp
next
  case (Cons r rs)
  let ?T = "effective_time dp"
  have rs_ok: "\<forall>x\<in>set rs. qualifies x \<longrightarrow> dates_consistent dp x"
    using Cons.prems(1) by simp
  show ?case
  proof (cases "qualifies r")
    case True
    then have r_ok: "dates_consistent dp r"
      using Cons.prems(1) by simp
    have step: "pick_step dp None r = Some (r, or_empty (asset_url r))"
      using True by (rule pick_step_first)
    from pick_loop_Some[OF assms rs_ok r_ok, of "or_empty (asset_url r)"]
    show ?thesis
    proof (elim disjE conjE exE)
      assume kept: "pick_loop dp rs (Some (r, or_empty (asset_url r)))
                      = Some (r, or_empty (asset_url r))"
        and older: "\<forall>j<length rs. qualifies (rs ! j) \<longrightarrow> ?T (rs ! j) \<le> ?T r"
      have "0 < length (r # rs) \<and> qualifies ((r # rs) ! 0) \<and>
         pick_loop dp (r # rs) None = Some ((r # rs) ! 0, or_empty (asset_url ((r # rs) ! 0))) \<and>
         (\<forall>j<length (r # rs). qualifies ((r # rs) ! j) \<longrightarrow>
            ?T ((r # rs) ! j) \<le> ?T ((r # rs) ! 0)) \<and>
         (\<forall>j<0. qualifies ((r # rs) ! j) \<longrightarrow> ?T ((r # rs) ! j) < ?T ((r # rs) ! 0))"
        using True kept older step by (simp add: All_less_Suc2)
      then show ?thesis by blast
    next
      fix i
      assume i: "i < length rs" "qualifies (rs ! i)"
        "pick_loop dp rs (Some (r, or_empty (asset_url r)))
           = Some (rs ! i, or_empty (asset_url (rs ! i)))"
        "?T r < ?T (rs ! i)"
        "\<forall>j<length rs. qualifies (rs ! j) \<longrightarrow> ?T (rs ! j) \<le> ?T (rs ! i)"
        "\<forall>j<i. qualifies (rs ! j) \<longrightarrow> ?T (rs ! j) < ?T (rs ! i)"
      have "Suc i < length (r # rs) \<and> qualifies ((r # rs) ! Suc i) \<and>
         pick_loop dp (r # rs) None
           = Some ((r # rs) ! Suc i, or_empty (asset_url ((r # rs) ! Suc i))) \<and>
         (\<forall>j<length (r # rs). qualifies ((r # rs) ! j) \<longrightarrow>
            ?T ((r # rs) ! j) \<le> ?T ((r # rs) ! Suc i)) \<and>
         (\<forall>j<Suc i. qualifies ((r # rs) ! j) \<longrightarrow>
            ?T ((r # rs) ! j) < ?T ((r # rs) ! Suc i))"
        using True i step by (simp add: All_less_Suc2)
      then show ?thesis by blast
    qed
  next
    case False
    then have step: "pick_step dp None r = None"
      by (rule pick_step_skip)
    have ex: "\<exists>x\<in>set rs. qualifies x"
      using False Cons.prems(2) by auto
    from Cons.IH[OF rs_ok ex] obtain i where i: "i < length rs" "qualifies (rs ! i)"
        "pick_loop dp rs None = Some (rs ! i, or_empty (asset_url (rs ! i)))"
        "\<forall>j<length rs. qualifies (rs ! j) \<longrightarrow> ?T (rs ! j) \<le> ?T (rs ! i)"
        "\<forall>j<i. qualifies (rs ! j) \<longrightarrow> ?T (rs ! j) < ?T (rs ! i)"
      by blast
    have "Suc i < length (r # rs) \<and> qualifies ((r # rs) ! Suc i) \<and>
         pick_loop dp (r # rs) None
           = Some ((r # rs) ! Suc i, or_empty (asset_url ((r # rs) ! Suc i))) \<and>
         (\<forall>j<length (r # rs). qualifies ((r # rs) ! j) \<longrightarrow>
            ?T ((r # rs) ! j) \<le> ?T ((r # rs) ! Suc i)) \<and>
         (\<forall>j<Suc i. qualifies ((r # rs) ! j) \<longrightarrow>
            ?T ((r # rs) ! j) < ?T ((r # rs) ! Suc i))"
      using False i step by (simp add: All_less_Suc2)
    then show ?thesis by blast
  qed
qed

text \<open>On a release with consistent dates, both computations give the documented order:
  \<open>published_at\<close> when it is present, else \<open>created_at\<close> when it is present, else zero,
  where a date that does not parse counts as zero.\<close>

lemma effective_time_fallback:
  assumes "dp [] = None" and "dates_consistent dp r"
  shows "effective_time dp r =
     (case published_at r of
        Some p \<Rightarrow> (case dp p of None \<Rightarrow> 0 | Some n \<Rightarrow> n)
      | None \<Rightarrow>
         (case created_at r of
            Some c \<Rightarrow> (case dp c of None \<Rightarrow> 0 | Some n \<Rightarrow> n)
          | None \<Rightarrow> 0))"
  using assms
  by (cases "published_at r"; cases "created_at r")
     (auto simp: effective_time_def time_def dates_consistent_def num_or_def truthy_num_def
        or_empty_def split: option.splits)

text \<open>
  \<^bold>\<open>C1\<close>, as stated, fails: the list \<open>[ex_no_url]\<close> contains a release that is not a draft
  and has an asset named \<open>bin.zip\<close>, and the selection returns nothing, because that
  asset has no download URL (the guard of lines 167 to 169).
\<close>

theorem matching_asset_without_url_counterexample:
  "draft ex_no_url \<noteq> Some True \<and>
   assets ex_no_url = Some [\<lparr>asset_name = Some ''bin.zip'', browser_download_url = None\<rparr>] \<and>
   is_bin_zip \<lparr>asset_name = Some ''bin.zip'', browser_download_url = None\<rparr> \<and>
   pickLatestReleaseWithBinZip iso_date_parse [ex_no_url] = None"
proof -
  have "is_bin_zip \<lparr>asset_name = Some ''bin.zip'', browser_download_url = None\<rparr>"
    by code_simp
  moreover have "pickLatestReleaseWithBinZip iso_date_parse [ex_no_url] = None"
    by code_simp
  ultimately show ?thesis
    by (simp add: ex_no_url_def)
qed

text \<open>
  \<^bold>\<open>C1\<close>, amended.  Call a release qualifying when it is not a draft and the first of its
  assets whose name is \<open>bin.zip\<close> up to letter case has a download URL that is not
  empty.  Let \<open>Date.parse("")\<close> be \<open>NaN\<close>, and let no qualifying release of the list have
  a \<open>published_at\<close> that is present without parsing to a time other than zero while its
  \<open>created_at\<close> does parse to one.  If the list contains a qualifying release, the
  selection returns a qualifying release of the list with its URL; no qualifying release
  of the list has a greater effective timestamp, and every qualifying release at an
  earlier index has a strictly smaller one (so among equals the earliest is returned).
\<close>

theorem selection_returns_newest_qualifying:
  assumes "dp [] = None"
    and "\<forall>r\<in>set releases. qualifies r \<longrightarrow> dates_consistent dp r"
    and "\<exists>r\<in>set releases. qualifies r"
  shows "\<exists>i<length releases. qualifies (releases ! i) \<and>
       pickLatestReleaseWithBinZip dp releases
         = Some (releases ! i, or_empty (asset_url (releases ! i))) \<and>
       (\<forall>j<length releases. qualifies (releases ! j) \<longrightarrow>
           effective_time dp (releases ! j) \<le> effective_time dp (releases ! i)) \<and>
       (\<forall>j<i. qualifies (releases ! j) \<longrightarrow>
           effective_time dp (releases ! j) < effective_time dp (releases ! i))"
  unfolding pickLatestReleaseWithBinZip_def using assms by (rule pick_loop_None)

lemma iso_date_parse_empty: "iso_date_parse [] = None"
  by (simp add: iso_date_parse_def)

lemma example_releases_qualify:
  "qualifies ex_v1" "qualifies ex_v2" "\<not> qualifies ex_v3"
  by code_simp+

lemma example_releases_dates:
  "dates_consistent iso_date_parse ex_v1" "dates_consistent iso_date_parse ex_v2"
  by code_simp+

lemma example_releases_times:
  "effective_time iso_date_parse ex_v1 = 1704067200000"
  "effective_time iso_date_parse ex_v2 = 1717200000000"
  by code_simp+

text \<open>The example of the specification, obtained from the theorem: of the three
  releases the third is a draft and the second is newer than the first.\<close>

theorem selection_returns_newest_qualifying_witness:
  "iso_date_parse [] = None \<and> qualifies ex_v1 \<and> qualifies ex_v2 \<and>
   pickLatestReleaseWithBinZip iso_date_parse [ex_v1, ex_v2, ex_v3] = Some (ex_v2, ''B'')"
proof -
  let ?rs = "[ex_v1, ex_v2, ex_v3]"
  have h2: "\<forall>r\<in>set ?rs. qualifies r \<longrightarrow> dates_consistent iso_date_parse r"
    by (simp add: example_releases_qualify example_releases_dates)
  have h3: "\<exists>r\<in>set ?rs. qualifies r"
    by (simp add: example_releases_qualify)
  from selection_returns_newest_qualifying[OF iso_date_parse_empty h2 h3]
  obtain i where i: "i < length ?rs" "qualifies (?rs ! i)"
      "pickLatestReleaseWithBinZip iso_date_parse ?rs
         = Some (?rs ! i, or_empty (asset_url (?rs ! i)))"
      "\<forall>j<length ?rs. qualifies (?rs ! j) \<longrightarrow>
          effective_time iso_date_parse (?rs ! j) \<le> effective_time iso_date_parse (?rs ! i)"
    by blast
  from i(1) have "i = 0 \<or> i = 1 \<or> i = 2" by auto
  moreover have "i \<noteq> 2"
    using i(2) example_releases_qualify(3) by auto
  moreover have "i \<noteq> 0"
  proof
    assume "i = 0"
    with i(4)[rule_format, of 1] have "qualifies (?rs ! 1) \<longrightarrow>
        effective_time iso_date_parse (?rs ! 1) \<le> effective_time iso_date_parse (?rs ! 0)"
      by simp
    then show False
      by (simp add: example_releases_qualify example_releases_times)
  qed
  ultimately have "i = 1" by blast
  moreover have "or_empty (asset_url ex_v2) = ''B''" by code_simp
  ultimately show ?thesis
    using i(3) iso_date_parse_empty example_releases_qualify by simp
qed

text \<open>
  \<^bold>\<open>C2.\<close>  The loop computes the timestamp of a release twice, and not in the same way:
  \<open>time\<close>, for the release at hand, passes on to \<open>created_at\<close> whenever \<open>published_at\<close>
  gives \<open>NaN\<close> or zero; \<open>latestTime\<close>, for the release held so far, reads
  \<open>published_at\<close> whenever that field is present and never looks at \<open>created_at\<close> then.
  For \<open>ex_unparsed\<close> (published \<open>unknown\<close>, created \<open>2024-06-01\<close>) the first gives the
  first of June and the second gives zero, and which of two releases is selected
  depends on their order.
\<close>

theorem effective_time_depends_on_role:
  "time iso_date_parse ex_unparsed = Some 1717200000000 \<and>
   latestTime iso_date_parse (Some (ex_unparsed, ''E'')) = Some 0 \<and>
   pickLatestReleaseWithBinZip iso_date_parse [ex_v1, ex_unparsed] = Some (ex_unparsed, ''E'') \<and>
   pickLatestReleaseWithBinZip iso_date_parse [ex_unparsed, ex_v1] = Some (ex_v1, ''A'')"
proof -
  have "time iso_date_parse ex_unparsed = Some 1717200000000"
    by code_simp
  moreover have "latestTime iso_date_parse (Some (ex_unparsed, ''E'')) = Some 0"
    by code_simp
  moreover have "pickLatestReleaseWithBinZip iso_date_parse [ex_v1, ex_unparsed]
      = Some (ex_unparsed, ''E'')"
    by code_simp
  moreover have "pickLatestReleaseWithBinZip iso_date_parse [ex_unparsed, ex_v1]
      = Some (ex_v1, ''A'')"
    by code_simp
  ultimately show ?thesis by blast
qed

section \<open>Properties of the HTTP operations\<close>

subsection \<open>One request\<close>

lemma requestJson_ReqError:
  "net w (requests s) url = ReqError e \<Longrightarrow>
   requestJson w parse url redirects s = (Rejected e, s\<lparr>requests := Suc (requests s)\<rparr>)"
  by (subst requestJson.simps) (simp add: Let_def)

lemma requestJson_redirect:
  "net w (requests s) url = Response res \<Longrightarrow> valid_redirect res redirects \<Longrightarrow>
   requestJson w parse url redirects s =
     (case new_URL w (or_empty (location res)) url of
        None \<Rightarrow> (Uncaught TypeError, s\<lparr>requests := Suc (requests s)\<rparr>)
      | Some nextUrl \<Rightarrow>
          requestJson w parse nextUrl (redirects + 1) (s\<lparr>requests := Suc (requests s)\<rparr>))"
  by (subst requestJson.simps) (simp add: Let_def valid_redirect_def)

lemma requestJson_terminal:
  "net w (requests s) url = Response res \<Longrightarrow> \<not> valid_redirect res redirects \<Longrightarrow>
   requestJson w parse url redirects s =
     (if status_of res < 200 \<or> 300 \<le> status_of res
      then (Rejected (Error (''Request failed with status '' @ show_nat (status_of res))),
            s\<lparr>requests := Suc (requests s)\<rparr>)
      else case parse (body res) of
             None \<Rightarrow> (Rejected SyntaxError, s\<lparr>requests := Suc (requests s)\<rparr>)
           | Some v \<Rightarrow> (Resolved v, s\<lparr>requests := Suc (requests s)\<rparr>))"
  by (subst requestJson.simps) (auto simp add: Let_def valid_redirect_def)

lemma downloadToFile_ReqError:
  "net w (requests s) url = ReqError e \<Longrightarrow>
   downloadToFile w url filePath redirects s = (Rejected e, s\<lparr>requests := Suc (requests s)\<rparr>)"
  by (subst downloadToFile.simps) (simp add: Let_def)

lemma downloadToFile_redirect:
  "net w (requests s) url = Response res \<Longrightarrow> valid_redirect res redirects \<Longrightarrow>
   downloadToFile w url filePath redirects s =
     (case new_URL w (or_empty (location res)) url of
        None \<Rightarrow> (Uncaught TypeError, s\<lparr>requests := Suc (requests s)\<rparr>)
      | Some nextUrl \<Rightarrow>
          downloadToFile w nextUrl filePath (redirects + 1) (s\<lparr>requests := Suc (requests s)\<rparr>))"
  by (subst downloadToFile.simps) (simp add: Let_def valid_redirect_def)

lemma downloadToFile_terminal:
  "net w (requests s) url = Response res \<Longrightarrow> \<not> valid_redirect res redirects \<Longrightarrow>
   downloadToFile w url filePath redirects s =
     (if status_of res < 200 \<or> 300 \<le> status_of res
      then (Rejected (Error (''Download failed with status '' @ show_nat (status_of res))),
            s\<lparr>requests := Suc (requests s)\<rparr>)
      else case pipeline_fault w (requests s) of
             None \<Rightarrow> (Resolved (),
                s\<lparr>requests := Suc (requests s), files := (files s)(filePath \<mapsto> File (body res))\<rparr>)
           | Some (e, None) \<Rightarrow> (Rejected e, s\<lparr>requests := Suc (requests s)\<rparr>)
           | Some (e, Some part) \<Rightarrow> (Rejected e,
                s\<lparr>requests := Suc (requests s), files := (files s)(filePath \<mapsto> File part)\<rparr>))"
  by (subst downloadToFile.simps) (auto simp add: Let_def valid_redirect_def split: option.splits)

subsection \<open>Induction over the redirects that remain\<close>

text \<open>A property of the result of an operation holds as soon as it holds for each way
  in which one request can end, and is passed on from the followed redirect.\<close>

lemma requestJson_cases:
  fixes P :: "nat \<Rightarrow> sys \<Rightarrow> 'a outcome \<times> sys \<Rightarrow> bool"
  assumes err: "\<And>url redirects s e. net w (requests s) url = ReqError e \<Longrightarrow>
              P redirects s (Rejected e, s\<lparr>requests := Suc (requests s)\<rparr>)"
    and throw: "\<And>url redirects s res. net w (requests s) url = Response res \<Longrightarrow>
              valid_redirect res redirects \<Longrightarrow> new_URL w (or_empty (location res)) url = None \<Longrightarrow>
              P redirects s (Uncaught TypeError, s\<lparr>requests := Suc (requests s)\<rparr>)"
    and follow: "\<And>url redirects s res nextUrl x. net w (requests s) url = Response res \<Longrightarrow>
              valid_redirect res redirects \<Longrightarrow>
              new_URL w (or_empty (location res)) url = Some nextUrl \<Longrightarrow>
              P (redirects + 1) (s\<lparr>requests := Suc (requests s)\<rparr>) x \<Longrightarrow> P redirects s x"
    and final: "\<And>url redirects s res. net w (requests s) url = Response res \<Longrightarrow>
              \<not> valid_redirect res redirects \<Longrightarrow>
              P redirects s (requestJson w parse url redirects s)"
  shows "P redirects s (requestJson w parse url redirects s)"
proof (induction "maxRedirects - redirects" arbitrary: redirects url s)
  case 0
  then have nv: "\<not> valid_redirect res redirects" for res
    by (simp add: valid_redirect_def)
  show ?case
  proof (cases "net w (requests s) url")
    case (ReqError e)
    then show ?thesis using err by (simp add: requestJson_ReqError)
  next
    case (Response res)
    then show ?thesis using final nv by blast
  qed
next
  case (Suc k)
  show ?case
  proof (cases "net w (requests s) url")
    case (ReqError e)
    then show ?thesis using err by (simp add: requestJson_ReqError)
  next
    case (Response res)
    show ?thesis
    proof (cases "valid_redirect res redirects")
      case False
      then show ?thesis using final Response by blast
    next
      case True
      have k: "k = maxRedirects - (redirects + 1)"
        using Suc.hyps(2) by simp
      show ?thesis
      proof (cases "new_URL w (or_empty (location res)) url")
        case None
        then show ?thesis using throw[OF Response True None]
          by (simp add: requestJson_redirect[OF Response True])
      next
        case (Some nextUrl)
        from Suc.hyps(1)[OF k, where url = nextUrl and s = "s\<lparr>requests := Suc (requests s)\<rparr>"]
        show ?thesis using follow[OF Response True Some]
          by (simp add: requestJson_redirect[OF Response True] Some)
      qed
    qed
  qed
qed

lemma downloadToFile_cases:
  fixes P :: "nat \<Rightarrow> sys \<Rightarrow> unit outcome \<times> sys \<Rightarrow> bool"
  assumes err: "\<And>url redirects s e. net w (requests s) url = ReqError e \<Longrightarrow>
              P redirects s (Rejected e, s\<lparr>requests := Suc (requests s)\<rparr>)"
    and throw: "\<And>url redirects s res. net w (requests s) url = Response res \<Longrightarrow>
              valid_redirect res redirects \<Longrightarrow> new_URL w (or_empty (location res)) url = None \<Longrightarrow>
              P redirects s (Uncaught TypeError, s\<lparr>requests := Suc (requests s)\<rparr>)"
    and follow: "\<And>url redirects s res nextUrl x. net w (requests s) url = Response res \<Longrightarrow>
              valid_redirect res redirects \<Longrightarrow>
              new_URL w (or_empty (location res)) url = Some nextUrl \<Longrightarrow>
              P (redirects + 1) (s\<lparr>requests := Suc (requests s)\<rparr>) x \<Longrightarrow> P redirects s x"
    and final: "\<And>url redirects s res. net w (requests s) url = Response res \<Longrightarrow>
              \<not> valid_redirect res redirects \<Longrightarrow>
              P redirects s (downloadToFile w url filePath redirects s)"
  shows "P redirects s (downloadToFile w url filePath redirects s)"
proof (induction "maxRedirects - redirects" arbitrary: redirects url s)
  case 0
  then have nv: "\<not> valid_redirect res redirects" for res
    by (simp add: valid_redirect_def)
  show ?case
  proof (cases "net w (requests s) url")
    case (ReqError e)
    then show ?thesis using err by (simp add: downloadToFile_ReqError)
  next
    case (Response res)
    then show ?thesis using final nv by blast
  qed
next
  case (Suc k)
  show ?case
  proof (cases "net w (requests s) url")
    case (ReqError e)
    then show ?thesis using err by (simp add: downloadToFile_ReqError)
  next
    case (Response res)
    show ?thesis
    proof (cases "valid_redirect res redirects")
      case False
      then show ?thesis using final Response by blast
    next
      case True
      have k: "k = maxRedirects - (redirects + 1)"
        using Suc.hyps(2) by simp
      show ?thesis
      proof (cases "new_URL w (or_empty (location res)) url")
        case None
        then show ?thesis using throw[OF Response True None]
          by (simp add: downloadToFile_redirect[OF Response True])
      next
        case (Some nextUrl)
        from Suc.hyps(1)[OF k, where url = nextUrl and s = "s\<lparr>requests := Suc (requests s)\<rparr>"]
        show ?thesis using follow[OF Response True Some]
          by (simp add: downloadToFile_redirect[OF Response True] Some)
      qed
    qed
  qed
qed

lemma requestJson_requests:
  fixes parse :: "string \<Rightarrow> 'a option"
  shows "requests (snd (requestJson w parse url redirects s))
     \<le> Suc (requests s) + (maxRedirects - redirects)"
proof (rule requestJson_cases[where P = "\<lambda>r (s::sys) (x :: 'a outcome \<times> sys).
          requests (snd x) \<le> Suc (requests s) + (maxRedirects - r)"])
  fix url redirects res and s :: sys
  assume "net w (requests s) url = Response res" "\<not> valid_redirect res redirects"
  then show "requests (snd (requestJson w parse url redirects s))
      \<le> Suc (requests s) + (maxRedirects - redirects)"
    by (simp add: requestJson_terminal split: option.splits)
qed (auto simp: valid_redirect_def)

lemma downloadToFile_requests:
  "requests (snd (downloadToFile w url filePath redirects s))
     \<le> Suc (requests s) + (maxRedirects - redirects)"
proof (rule downloadToFile_cases[where P = "\<lambda>r (s::sys) x.
          requests (snd x) \<le> Suc (requests s) + (maxRedirects - r)"])
  fix url redirects res and s :: sys
  assume "net w (requests s) url = Response res" "\<not> valid_redirect res redirects"
  then show "requests (snd (downloadToFile w url filePath redirects s))
      \<le> Suc (requests s) + (maxRedirects - redirects)"
    by (simp add: downloadToFile_terminal split: option.splits)
qed (auto simp: valid_redirect_def)

text \<open>A download writes to its own file and nowhere else.\<close>

lemma downloadToFile_frame:
  "p \<noteq> filePath \<Longrightarrow> files (snd (downloadToFile w url filePath redirects s)) p = files s p"
proof (rule downloadToFile_cases[where P = "\<lambda>r (s::sys) x. files (snd x) p = files s p"])
  fix url redirects res and s :: sys
  assume "p \<noteq> filePath" "net w (requests s) url = Response res" "\<not> valid_redirect res redirects"
  then show "files (snd (downloadToFile w url filePath redirects s)) p = files s p"
    by (simp add: downloadToFile_terminal split: option.splits)
qed auto

subsection \<open>The status code in the message\<close>

lemma digits_val_snoc:
  "digits_val (xs @ [c]) acc =
     (case digits_val xs acc of None \<Rightarrow> None
      | Some v \<Rightarrow> (case digit_of c of None \<Rightarrow> None | Some d \<Rightarrow> Some (10 * v + d)))"
  by (induction xs arbitrary: acc) (auto split: option.splits)

lemma digit_of_char_of: "d < 10 \<Longrightarrow> digit_of (char_of (48 + d)) = Some d"
  by (simp add: digit_of_def Let_def)

lemma digits_val_show_nat: "digits_val (show_nat n) 0 = Some n"
proof (induction n rule: show_nat.induct)
  case (1 n)
  show ?case
  proof (cases "n < 10")
    case True
    then show ?thesis
      by (subst show_nat.simps) (simp add: digit_of_char_of)
  next
    case False
    with 1 have ih: "digits_val (show_nat (n div 10)) 0 = Some (n div 10)"
      by simp
    have d: "digit_of (char_of (48 + n mod 10)) = Some (n mod 10)"
      by (rule digit_of_char_of) simp
    have "show_nat n = show_nat (n div 10) @ [char_of (48 + n mod 10)]"
      by (subst show_nat.simps) (simp only: False if_False)
    then have "digits_val (show_nat n) 0 = Some (10 * (n div 10) + n mod 10)"
      by (simp only: digits_val_snoc ih d option.case)
    then show ?thesis by simp
  qed
qed

text \<open>Different status codes give different messages.\<close>

lemma show_nat_inj: "show_nat m = show_nat n \<Longrightarrow> m = n"
  by (metis digits_val_show_nat option.inject)

lemma show_nat_examples: "show_nat 404 = ''404''" "show_nat 302 = ''302''"
  by code_simp+

subsection \<open>Redirects\<close>

text \<open>
  \<^bold>\<open>C5.\<close>  Both operations end, after at most \<open>maxRedirects + 1\<close> requests: started with
  the hop count \<open>redirects\<close>, they send at most \<open>maxRedirects - redirects + 1\<close> of them.
  Once the hop count has reached \<open>maxRedirects\<close>, a response with a status from 300 to
  399 is not followed, with or without a \<open>Location\<close> header: the operation is rejected
  with the error that carries the status.  Below \<open>maxRedirects\<close>, such a response with
  a \<open>Location\<close> header that resolves to a URL is followed, with the hop count
  incremented.
\<close>

theorem redirect_following_is_bounded:
  "requests (snd (requestJson w parse url redirects s))
      \<le> Suc (requests s) + (maxRedirects - redirects) \<and>
   requests (snd (downloadToFile w url filePath redirects s))
      \<le> Suc (requests s) + (maxRedirects - redirects) \<and>
   (net w (requests s) url = Response res \<and> 300 \<le> status_of res \<and> status_of res < 400 \<and>
    maxRedirects \<le> redirects \<longrightarrow>
      requestJson w parse url redirects s =
        (Rejected (Error (''Request failed with status '' @ show_nat (status_of res))),
         s\<lparr>requests := Suc (requests s)\<rparr>) \<and>
      downloadToFile w url filePath redirects s =
        (Rejected (Error (''Download failed with status '' @ show_nat (status_of res))),
         s\<lparr>requests := Suc (requests s)\<rparr>)) \<and>
   (net w (requests s) url = Response res \<and> 300 \<le> status_of res \<and> status_of res < 400 \<and>
    or_empty (location res) \<noteq> [] \<and> redirects < maxRedirects \<and>
    new_URL w (or_empty (location res)) url = Some nextUrl \<longrightarrow>
      requestJson w parse url redirects s =
        requestJson w parse nextUrl (redirects + 1) (s\<lparr>requests := Suc (requests s)\<rparr>) \<and>
      downloadToFile w url filePath redirects s =
        downloadToFile w nextUrl filePath (redirects + 1) (s\<lparr>requests := Suc (requests s)\<rparr>))"
proof (intro conjI impI)
  show "requests (snd (requestJson w parse url redirects s))
      \<le> Suc (requests s) + (maxRedirects - redirects)"
    by (rule requestJson_requests)
  show "requests (snd (downloadToFile w url filePath redirects s))
      \<le> Suc (requests s) + (maxRedirects - redirects)"
    by (rule downloadToFile_requests)
next
  assume a: "net w (requests s) url = Response res \<and> 300 \<le> status_of res \<and>
    status_of res < 400 \<and> maxRedirects \<le> redirects"
  then have nv: "\<not> valid_redirect res redirects"
    by (simp add: valid_redirect_def)
  from a show "requestJson w parse url redirects s =
        (Rejected (Error (''Request failed with status '' @ show_nat (status_of res))),
         s\<lparr>requests := Suc (requests s)\<rparr>)"
    using requestJson_terminal[OF _ nv, of w s url parse] by simp
  from a show "downloadToFile w url filePath redirects s =
        (Rejected (Error (''Download failed with status '' @ show_nat (status_of res))),
         s\<lparr>requests := Suc (requests s)\<rparr>)"
    using downloadToFile_terminal[OF _ nv, of w s url filePath] by simp
next
  assume a: "net w (requests s) url = Response res \<and> 300 \<le> status_of res \<and>
    status_of res < 400 \<and> or_empty (location res) \<noteq> [] \<and> redirects < maxRedirects \<and>
    new_URL w (or_empty (location res)) url = Some nextUrl"
  then have v: "valid_redirect res redirects"
    by (simp add: valid_redirect_def)
  from a show "requestJson w parse url redirects s =
        requestJson w parse nextUrl (redirects + 1) (s\<lparr>requests := Suc (requests s)\<rparr>)"
    using requestJson_redirect[OF _ v, of w s url parse] by simp
  from a show "downloadToFile w url filePath redirects s =
        downloadToFile w nextUrl filePath (redirects + 1) (s\<lparr>requests := Suc (requests s)\<rparr>)"
    using downloadToFile_redirect[OF _ v, of w s url filePath] by simp
qed

lemma redirect_world_fields:
  "net redirect_world t url
     = Response \<lparr>statusCode = Some 302, location = Some ''/again'', body = []\<rparr>"
  "new_URL redirect_world loc base = Some base"
  by (simp_all add: redirect_world_def not_found_world_def)

text \<open>Against a server that redirects for ever, both operations send six requests and
  are rejected with the status of the sixth response.\<close>

theorem redirect_following_is_bounded_witness:
  "requestJson redirect_world (JSON_parse_latest redirect_world) ''https://example.org/a'' 0 sys0
     = (Rejected (Error ''Request failed with status 302''), sys0\<lparr>requests := 6\<rparr>) \<and>
   downloadToFile redirect_world ''https://example.org/a'' [''tmp'', ''a''] 0 sys0
     = (Rejected (Error ''Download failed with status 302''), sys0\<lparr>requests := 6\<rparr>)"
proof -
  let ?w = redirect_world
  let ?u = "''https://example.org/a''"
  let ?res = "\<lparr>statusCode = Some 302, location = Some ''/again'', body = []\<rparr>"
  note inst = redirect_following_is_bounded
      [where w = "?w" and parse = "JSON_parse_latest ?w" and url = "?u"
         and filePath = "[''tmp'', ''a'']" and res = "?res" and nextUrl = "?u"]
  have hop: "requestJson ?w (JSON_parse_latest ?w) ?u k (sys0\<lparr>requests := k\<rparr>)
        = requestJson ?w (JSON_parse_latest ?w) ?u (Suc k) (sys0\<lparr>requests := Suc k\<rparr>) \<and>
      downloadToFile ?w ?u [''tmp'', ''a''] k (sys0\<lparr>requests := k\<rparr>)
        = downloadToFile ?w ?u [''tmp'', ''a''] (Suc k) (sys0\<lparr>requests := Suc k\<rparr>)"
    if "k < 5" for k
    using inst[where redirects = k and s = "sys0\<lparr>requests := k\<rparr>"] that
    by (simp add: redirect_world_fields status_of_def or_empty_def maxRedirects_def)
  have last: "requestJson ?w (JSON_parse_latest ?w) ?u 5 (sys0\<lparr>requests := 5\<rparr>)
        = (Rejected (Error ''Request failed with status 302''), sys0\<lparr>requests := 6\<rparr>) \<and>
      downloadToFile ?w ?u [''tmp'', ''a''] 5 (sys0\<lparr>requests := 5\<rparr>)
        = (Rejected (Error ''Download failed with status 302''), sys0\<lparr>requests := 6\<rparr>)"
    using inst[where redirects = 5 and s = "sys0\<lparr>requests := 5\<rparr>"]
    by (simp add: redirect_world_fields status_of_def maxRedirects_def show_nat_examples)
  have start: "sys0\<lparr>requests := 0\<rparr> = sys0"
    by (simp add: sys0_def)
  show ?thesis
    using hop[of 0] hop[of 1] hop[of 2] hop[of 3] hop[of 4] last
    by (simp add: start eval_nat_numeral)
qed

subsection \<open>Statuses that are no success\<close>

text \<open>
  \<^bold>\<open>C6.\<close>  When the response has a status outside 200 to 299 and is not a redirect that
  is followed (a status from 300 to 399, a \<open>Location\<close> header that is not empty and a
  hop count below \<open>maxRedirects\<close>), \<open>requestJson\<close> and \<open>downloadToFile\<close> are rejected with
  an error whose message ends in the decimal digits of exactly that status, and nothing
  is written to the file.  No other status has the same digits.
\<close>

theorem failure_status_is_reported:
  assumes "net w (requests s) url = Response res"
    and "\<not> (200 \<le> status_of res \<and> status_of res < 300)"
    and "\<not> (300 \<le> status_of res \<and> status_of res < 400 \<and> or_empty (location res) \<noteq> [] \<and>
            redirects < maxRedirects)"
  shows "requestJson w parse url redirects s =
           (Rejected (Error (''Request failed with status '' @ show_nat (status_of res))),
            s\<lparr>requests := Suc (requests s)\<rparr>) \<and>
         downloadToFile w url filePath redirects s =
           (Rejected (Error (''Download failed with status '' @ show_nat (status_of res))),
            s\<lparr>requests := Suc (requests s)\<rparr>) \<and>
         (\<forall>n. show_nat n = show_nat (status_of res) \<longrightarrow> n = status_of res)"
proof -
  have nv: "\<not> valid_redirect res redirects"
    using assms(3) by (simp add: valid_redirect_def)
  have "status_of res < 200 \<or> 300 \<le> status_of res"
    using assms(2) by auto
  then show ?thesis
    using requestJson_terminal[OF assms(1) nv, of parse]
      downloadToFile_terminal[OF assms(1) nv, of filePath] show_nat_inj
    by auto
qed

lemma not_found_world_net:
  "net not_found_world t url = Response \<lparr>statusCode = Some 404, location = None, body = []\<rparr>"
  by (simp add: not_found_world_def)

theorem failure_status_is_reported_witness:
  "requestJson not_found_world (JSON_parse_latest not_found_world) LATEST_RELEASE_URL 0 sys0
     = (Rejected (Error ''Request failed with status 404''), sys0\<lparr>requests := 1\<rparr>) \<and>
   downloadToFile not_found_world ''https://example.org/bin.zip'' [''tmp'', ''bin.zip''] 0 sys0
     = (Rejected (Error ''Download failed with status 404''), sys0\<lparr>requests := 1\<rparr>)"
proof -
  let ?res = "\<lparr>statusCode = Some 404, location = None, body = []\<rparr>"
  have st: "status_of ?res = 404"
    by (simp add: status_of_def)
  have r0: "requests sys0 = 0"
    by (simp add: sys0_def)
  have h1: "net not_found_world (requests sys0) url = Response ?res" for url
    by (rule not_found_world_net)
  note inst = failure_status_is_reported
      [where w = not_found_world and s = sys0 and res = "?res" and redirects = 0
         and parse = "JSON_parse_latest not_found_world" and filePath = "[''tmp'', ''bin.zip'']"]
  have h2: "\<not> (200 \<le> status_of ?res \<and> status_of ?res < 300)"
    by (simp add: st)
  have h3: "\<not> (300 \<le> status_of ?res \<and> status_of ?res < 400 \<and> or_empty (location ?res) \<noteq> [] \<and>
            0 < maxRedirects)"
    by (simp add: st)
  show ?thesis
    using inst[where url = LATEST_RELEASE_URL, OF h1 h2 h3]
      inst[where url = "''https://example.org/bin.zip''", OF h1 h2 h3]
    by (simp add: st r0 show_nat_examples)
qed

subsection \<open>The body of a successful response\<close>

text \<open>
  \<^bold>\<open>C8.\<close>  When the response has a status from 200 to 299, \<open>requestJson\<close> hands the body
  to \<open>JSON.parse\<close>: it is fulfilled with the parsed value, or, when \<open>JSON.parse\<close> throws,
  rejected with the \<open>SyntaxError\<close> thrown.  This holds at every hop count, so also for
  the response that ends a chain of redirects.
\<close>

theorem success_body_is_parsed:
  assumes "net w (requests s) url = Response res"
    and "200 \<le> status_of res" and "status_of res < 300"
  shows "requestJson w parse url redirects s =
           (case parse (body res) of
              Some v \<Rightarrow> (Resolved v, s\<lparr>requests := Suc (requests s)\<rparr>)
            | None \<Rightarrow> (Rejected SyntaxError, s\<lparr>requests := Suc (requests s)\<rparr>))"
proof -
  have nv: "\<not> valid_redirect res redirects"
    using assms(3) by (simp add: valid_redirect_def)
  show ?thesis
    using requestJson_terminal[OF assms(1) nv, of parse] assms(2,3)
    by (simp split: option.splits)
qed

lemma tag_world_fields:
  "net tag_world t url
     = Response \<lparr>statusCode = Some 200, location = None, body = latest_body\<rparr>"
  "JSON_parse_latest tag_world latest_body = Some \<lparr>tag_name = Some ''v1.2.0''\<rparr>"
  "JSON_parse_releases tag_world b = None"
  by (simp_all add: tag_world_def not_found_world_def)

text \<open>The same body read at the two types: it is a release with a tag, and it is not a
  list of releases.\<close>

theorem success_body_is_parsed_witness:
  "requestJson tag_world (JSON_parse_latest tag_world) LATEST_RELEASE_URL 0 sys0
     = (Resolved \<lparr>tag_name = Some ''v1.2.0''\<rparr>, sys0\<lparr>requests := 1\<rparr>) \<and>
   requestJson tag_world (JSON_parse_releases tag_world) RELEASES_URL 0 sys0
     = (Rejected SyntaxError, sys0\<lparr>requests := 1\<rparr>)"
proof -
  let ?res = "\<lparr>statusCode = Some 200, location = None, body = latest_body\<rparr>"
  have st: "status_of ?res = 200"
    by (simp add: status_of_def)
  have r0: "requests sys0 = 0"
    by (simp add: sys0_def)
  have h1: "net tag_world (requests sys0) url = Response ?res" for url
    by (rule tag_world_fields)
  have h2: "200 \<le> status_of ?res" and h3: "status_of ?res < 300"
    by (simp_all add: st)
  show ?thesis
    using success_body_is_parsed[OF h1 h2 h3, where parse = "JSON_parse_latest tag_world"
        and url = LATEST_RELEASE_URL and redirects = 0]
      success_body_is_parsed[OF h1 h2 h3, where parse = "JSON_parse_releases tag_world"
        and url = RELEASES_URL and redirects = 0]
    by (simp add: r0 tag_world_fields)
qed

section \<open>Properties of the resolver\<close>

text \<open>
  \<^bold>\<open>C7.\<close>  When the request for the latest release is fulfilled with \<open>data\<close>,
  \<open>fetchLatestTag\<close> is fulfilled with the tag of \<open>data\<close> if there is one, and rejected
  with the error \<open>Latest release tag not found.\<close> exactly when there is none; the test
  of the source is \<open>!tag\<close>, so there is none when \<open>tag_name\<close> is absent or the empty
  string.  When the request is rejected, \<open>fetchLatestTag\<close> is rejected with the error of
  the request.
\<close>

theorem latest_tag_or_not_found:
  "(requestJson w (JSON_parse_latest w) LATEST_RELEASE_URL 0 s = (Resolved data, s') \<longrightarrow>
      fetchLatestTag w s =
        (case tag_name data of
           None \<Rightarrow> (Rejected (Error ''Latest release tag not found.''), s')
         | Some tag \<Rightarrow>
             if tag = [] then (Rejected (Error ''Latest release tag not found.''), s')
             else (Resolved tag, s'))) \<and>
   (requestJson w (JSON_parse_latest w) LATEST_RELEASE_URL 0 s = (Rejected e, s') \<longrightarrow>
      fetchLatestTag w s = (Rejected e, s'))"
  by (auto simp: fetchLatestTag_def await_def or_empty_def Let_def split: option.splits)

lemma tag_world_request:
  "requestJson tag_world (JSON_parse_latest tag_world) LATEST_RELEASE_URL 0 sys0
     = (Resolved \<lparr>tag_name = Some ''v1.2.0''\<rparr>, sys0\<lparr>requests := 1\<rparr>)"
proof -
  let ?res = "\<lparr>statusCode = Some 200, location = None, body = latest_body\<rparr>"
  have "net tag_world (requests sys0) LATEST_RELEASE_URL = Response ?res"
    by (rule tag_world_fields)
  moreover have "\<not> valid_redirect ?res 0"
    by (simp add: valid_redirect_def status_of_def)
  ultimately show ?thesis
    by (simp add: requestJson_terminal status_of_def tag_world_fields sys0_def)
qed

lemma untagged_world_request:
  "requestJson (tag_world\<lparr>JSON_parse_latest := \<lambda>b. Some \<lparr>tag_name = None\<rparr>\<rparr>)
      (\<lambda>b. Some \<lparr>tag_name = None\<rparr>) LATEST_RELEASE_URL 0 sys0
     = (Resolved \<lparr>tag_name = None\<rparr>, sys0\<lparr>requests := 1\<rparr>)"
proof -
  let ?w = "tag_world\<lparr>JSON_parse_latest := \<lambda>b. Some \<lparr>tag_name = None\<rparr>\<rparr>"
  let ?res = "\<lparr>statusCode = Some 200, location = None, body = latest_body\<rparr>"
  have "net ?w (requests sys0) LATEST_RELEASE_URL = Response ?res"
    by (simp add: tag_world_fields)
  moreover have "\<not> valid_redirect ?res 0"
    by (simp add: valid_redirect_def status_of_def)
  ultimately show ?thesis
    by (simp add: requestJson_terminal status_of_def sys0_def)
qed

text \<open>A response with a tag, and a response without one.\<close>

theorem latest_tag_or_not_found_witness:
  "fetchLatestTag tag_world sys0 = (Resolved ''v1.2.0'', sys0\<lparr>requests := 1\<rparr>) \<and>
   fetchLatestTag (tag_world\<lparr>JSON_parse_latest := \<lambda>b. Some \<lparr>tag_name = None\<rparr>\<rparr>) sys0
     = (Rejected (Error ''Latest release tag not found.''), sys0\<lparr>requests := 1\<rparr>)"
  using latest_tag_or_not_found[where w = tag_world and s = sys0
          and data = "\<lparr>tag_name = Some ''v1.2.0''\<rparr>" and s' = "sys0\<lparr>requests := 1\<rparr>"]
        latest_tag_or_not_found
          [where w = "tag_world\<lparr>JSON_parse_latest := \<lambda>b. Some \<lparr>tag_name = None\<rparr>\<rparr>"
          and s = sys0 and data = "\<lparr>tag_name = None\<rparr>" and s' = "sys0\<lparr>requests := 1\<rparr>"]
        tag_world_request untagged_world_request
  by simp

section \<open>Properties of \<open>main\<close>\<close>

text \<open>The two awaited downloads in terms of each one's outcome: the second is started
  only when the first is fulfilled, in the state that the first has left.\<close>

lemma main_downloads_outcomes:
  assumes "downloadToFile w tarballUrl (tmpDir @ [''template.tgz'']) 0 s = (r1, s1)"
    and "downloadToFile w binaryZipUrl (tmpDir @ [''bin.zip'']) 0 s1 = (r2, s2)"
  shows "main_downloads w tmpDir tarballUrl binaryZipUrl s =
           (if r1 = Resolved () then (r2, s2) else (r1, s1))"
  using assms by (cases r1) (simp_all add: main_downloads_def await_def)

text \<open>
  \<^bold>\<open>C9.\<close>  Let \<open>mkdtemp\<close> have created \<open>tmpDir\<close>, let the download of the template archive
  into \<open>tmpDir/template.tgz\<close> end with \<open>r1\<close> in the state \<open>s1\<close>, and let the download of the
  binary archive into \<open>tmpDir/bin.zip\<close>, started in \<open>s1\<close>, end with \<open>r2\<close> in the state \<open>s2\<close>.
  \<^item> If one of the two is not fulfilled (it is rejected by a request error, a status or a
    broken transfer, or it ends the process), lines 253 to 267 fail as a whole, and every
    path that is not \<open>tmpDir\<close> or below it is as it was before them: the target directory
    has not been created and nothing has been extracted.
  \<^item> If the first is not fulfilled, the second is not started: no further request is sent.
  \<^item> Only if both are fulfilled does the block go on to create and fill the target
    directory, from the state \<open>s2\<close>; the \<open>finally\<close> clause then changes nothing outside
    \<open>tmpDir\<close> either.
  \<^item> After a rejected download and an \<open>rm\<close> that succeeds, nothing is left at or below
    \<open>tmpDir\<close>.
\<close>

theorem failed_download_leaves_target_untouched:
  assumes tmp: "mkdtemp_path w = Inr tmpDir"
    and d1: "downloadToFile w tarballUrl (tmpDir @ [''template.tgz'']) 0
               (s\<lparr>files := (files s)(tmpDir \<mapsto> Dir)\<rparr>) = (r1, s1)"
    and d2: "downloadToFile w binaryZipUrl (tmpDir @ [''bin.zip'']) 0 s1 = (r2, s2)"
  shows "(r1 \<noteq> Resolved () \<or> r2 \<noteq> Resolved () \<longrightarrow>
        fst (main_block w targetDir tarballUrl binaryZipUrl s) \<noteq> Resolved () \<and>
        (\<forall>p. \<not> prefix tmpDir p \<longrightarrow>
           files (snd (main_block w targetDir tarballUrl binaryZipUrl s)) p = files s p)) \<and>
     (r1 \<noteq> Resolved () \<longrightarrow>
        requests (snd (main_block w targetDir tarballUrl binaryZipUrl s)) = requests s1) \<and>
     (r1 = Resolved () \<and> r2 = Resolved () \<longrightarrow>
        main_block w targetDir tarballUrl binaryZipUrl s
          = try_finally (main_extract w tmpDir targetDir s2) (rm w tmpDir) \<and>
        (\<forall>p. \<not> prefix tmpDir p \<longrightarrow>
           files (snd (main_block w targetDir tarballUrl binaryZipUrl s)) p
             = files (snd (main_extract w tmpDir targetDir s2)) p)) \<and>
     (((\<exists>e. r1 = Rejected e) \<or> (r1 = Resolved () \<and> (\<exists>e. r2 = Rejected e))) \<and>
      rm_fault w = None \<longrightarrow>
        (\<forall>p. prefix tmpDir p \<longrightarrow>
           files (snd (main_block w targetDir tarballUrl binaryZipUrl s)) p = None))"
proof -
  let ?s0 = "s\<lparr>files := (files s)(tmpDir \<mapsto> Dir)\<rparr>"
  let ?blk = "main_block w targetDir tarballUrl binaryZipUrl s"
  have ne: "p \<noteq> tmpDir @ [x]" if "\<not> prefix tmpDir p" for p x
    using that by auto
  have out1: "files s1 p = files s p" if "\<not> prefix tmpDir p" for p
    using downloadToFile_frame[OF ne[OF that], of w tarballUrl "''template.tgz''" 0 ?s0] d1 that
    by auto
  have out2: "files s2 p = files s p" if "\<not> prefix tmpDir p" for p
    using downloadToFile_frame[OF ne[OF that], of w binaryZipUrl "''bin.zip''" 0 s1] d2
      out1[OF that]
    by simp
  have blk: "?blk = try_finally
        (await (if r1 = Resolved () then (r2, s2) else (r1, s1))
           (\<lambda>_ s2. main_extract w tmpDir targetDir s2))
        (rm w tmpDir)"
    using tmp main_downloads_outcomes[OF d1 d2]
    by (simp add: main_block_def mkdtemp_def await_def)
  have first_failed: "fst ?blk \<noteq> Resolved () \<and> requests (snd ?blk) = requests s1 \<and>
      (\<forall>p. \<not> prefix tmpDir p \<longrightarrow> files (snd ?blk) p = files s p)"
    if "r1 \<noteq> Resolved ()"
    using that out1
    by (cases r1; cases "rm_fault w") (auto simp: blk await_def try_finally_def rm_def)
  have second_failed: "fst ?blk \<noteq> Resolved () \<and>
      (\<forall>p. \<not> prefix tmpDir p \<longrightarrow> files (snd ?blk) p = files s p)"
    if "r1 = Resolved ()" "r2 \<noteq> Resolved ()"
    using that out2
    by (cases r2; cases "rm_fault w") (auto simp: blk await_def try_finally_def rm_def)
  have both: "?blk = try_finally (main_extract w tmpDir targetDir s2) (rm w tmpDir) \<and>
      (\<forall>p. \<not> prefix tmpDir p \<longrightarrow>
         files (snd ?blk) p = files (snd (main_extract w tmpDir targetDir s2)) p)"
    if "r1 = Resolved ()" "r2 = Resolved ()"
  proof -
    have eq: "?blk = try_finally (main_extract w tmpDir targetDir s2) (rm w tmpDir)"
      using that by (simp add: blk await_def)
    obtain r3 s3 where ex: "main_extract w tmpDir targetDir s2 = (r3, s3)"
      by (cases "main_extract w tmpDir targetDir s2")
    have "\<forall>p. \<not> prefix tmpDir p \<longrightarrow> files (snd ?blk) p = files s3 p"
      by (cases r3; cases "rm_fault w") (auto simp: eq ex await_def try_finally_def rm_def)
    with eq ex show ?thesis by simp
  qed
  have cleaned1: "\<forall>p. prefix tmpDir p \<longrightarrow> files (snd ?blk) p = None"
    if "r1 = Rejected e" "rm_fault w = None" for e
    using that by (auto simp: blk await_def try_finally_def rm_def)
  have cleaned2: "\<forall>p. prefix tmpDir p \<longrightarrow> files (snd ?blk) p = None"
    if "r1 = Resolved ()" "r2 = Rejected e" "rm_fault w = None" for e
    using that by (auto simp: blk await_def try_finally_def rm_def)
  show ?thesis
    using first_failed second_failed both cleaned1 cleaned2 by blast
qed

lemma broken_world_fields:
  "net broken_world t url
     = Response \<lparr>statusCode = Some 200, location = None, body = ''archive''\<rparr>"
  "pipeline_fault broken_world 0 = None"
  "pipeline_fault broken_world (Suc 0) = Some (Error ''aborted'', Some ''ar'')"
  "mkdtemp_path broken_world = Inr [''tmp'', ''frame-script-abc123'']"
  "rm_fault broken_world = None"
  by (simp_all add: broken_world_def not_found_world_def)

lemma tarball_missing_world_fields:
  "net tarball_missing_world 0 url
     = Response \<lparr>statusCode = Some 404, location = None, body = []\<rparr>"
  "net tarball_missing_world (Suc t) url
     = Response \<lparr>statusCode = Some 200, location = None, body = ''archive''\<rparr>"
  "pipeline_fault tarball_missing_world t = None"
  "mkdtemp_path tarball_missing_world = Inr [''tmp'', ''frame-script-abc123'']"
  "rm_fault tarball_missing_world = None"
  by (simp_all add: tarball_missing_world_def not_found_world_def)

text \<open>In \<open>broken_world\<close> the first archive arrives, and the transfer of the second breaks
  off and leaves a partial file in the temporary directory.\<close>

lemma broken_world_first_download:
  "downloadToFile broken_world ''https://example.org/template.tgz''
      ([''tmp'', ''frame-script-abc123''] @ [''template.tgz'']) 0
      (sys0\<lparr>files := (files sys0)([''tmp'', ''frame-script-abc123''] \<mapsto> Dir)\<rparr>)
   = (Resolved (),
      \<lparr>files = (files sys0)([''tmp'', ''frame-script-abc123''] \<mapsto> Dir,
                 [''tmp'', ''frame-script-abc123'', ''template.tgz''] \<mapsto> File ''archive''),
       requests = 1\<rparr>)"
proof -
  let ?res = "\<lparr>statusCode = Some 200, location = None, body = ''archive''\<rparr>"
  have nv: "\<not> valid_redirect ?res 0"
    by (simp add: valid_redirect_def status_of_def)
  have n: "net broken_world (requests s) url = Response ?res" for s :: sys and url
    by (rule broken_world_fields)
  show ?thesis
    by (simp add: downloadToFile_terminal[OF n nv] status_of_def broken_world_fields sys0_def)
qed

lemma broken_world_second_download:
  "downloadToFile broken_world ''https://example.org/bin.zip''
      ([''tmp'', ''frame-script-abc123''] @ [''bin.zip'']) 0
      \<lparr>files = (files sys0)([''tmp'', ''frame-script-abc123''] \<mapsto> Dir,
                 [''tmp'', ''frame-script-abc123'', ''template.tgz''] \<mapsto> File ''archive''),
       requests = 1\<rparr>
   = (Rejected (Error ''aborted''),
      \<lparr>files = (files sys0)([''tmp'', ''frame-script-abc123''] \<mapsto> Dir,
                 [''tmp'', ''frame-script-abc123'', ''template.tgz''] \<mapsto> File ''archive'',
                 [''tmp'', ''frame-script-abc123'', ''bin.zip''] \<mapsto> File ''ar''),
       requests = 2\<rparr>)"
proof -
  let ?res = "\<lparr>statusCode = Some 200, location = None, body = ''archive''\<rparr>"
  have nv: "\<not> valid_redirect ?res 0"
    by (simp add: valid_redirect_def status_of_def)
  have n: "net broken_world (requests s) url = Response ?res" for s :: sys and url
    by (rule broken_world_fields)
  show ?thesis
    by (simp add: downloadToFile_terminal[OF n nv] status_of_def broken_world_fields)
qed

text \<open>In \<open>tarball_missing_world\<close> the first download is answered with 404; the second,
  had it been started in the state left by the first, would have been fulfilled.\<close>

lemma tarball_missing_first_download:
  "downloadToFile tarball_missing_world ''https://example.org/template.tgz''
      ([''tmp'', ''frame-script-abc123''] @ [''template.tgz'']) 0
      (sys0\<lparr>files := (files sys0)([''tmp'', ''frame-script-abc123''] \<mapsto> Dir)\<rparr>)
   = (Rejected (Error ''Download failed with status 404''),
      \<lparr>files = (files sys0)([''tmp'', ''frame-script-abc123''] \<mapsto> Dir), requests = 1\<rparr>)"
proof -
  let ?res = "\<lparr>statusCode = Some 404, location = None, body = []\<rparr>"
  let ?s = "sys0\<lparr>files := (files sys0)([''tmp'', ''frame-script-abc123''] \<mapsto> Dir)\<rparr>"
  have nv: "\<not> valid_redirect ?res 0"
    by (simp add: valid_redirect_def status_of_def)
  have n: "net tarball_missing_world (requests ?s) url = Response ?res" for url
    by (simp add: tarball_missing_world_fields sys0_def)
  from downloadToFile_terminal[OF n nv, where filePath = "[''tmp'', ''frame-script-abc123''] @ [''template.tgz'']"
      and url = "''https://example.org/template.tgz''"]
  show ?thesis
    by (simp add: status_of_def show_nat_examples sys0_def)
qed

lemma tarball_missing_second_download:
  "downloadToFile tarball_missing_world ''https://example.org/bin.zip''
      ([''tmp'', ''frame-script-abc123''] @ [''bin.zip'']) 0
      \<lparr>files = (files sys0)([''tmp'', ''frame-script-abc123''] \<mapsto> Dir), requests = 1\<rparr>
   = (Resolved (),
      \<lparr>files = (files sys0)([''tmp'', ''frame-script-abc123''] \<mapsto> Dir,
                 [''tmp'', ''frame-script-abc123'', ''bin.zip''] \<mapsto> File ''archive''),
       requests = 2\<rparr>)"
proof -
  let ?res = "\<lparr>statusCode = Some 200, location = None, body = ''archive''\<rparr>"
  let ?s = "\<lparr>files = (files sys0)([''tmp'', ''frame-script-abc123''] \<mapsto> Dir), requests = 1\<rparr>"
  have nv: "\<not> valid_redirect ?res 0"
    by (simp add: valid_redirect_def status_of_def)
  have n: "net tarball_missing_world (requests ?s) url = Response ?res" for url
    by (simp add: tarball_missing_world_fields)
  from downloadToFile_terminal[OF n nv, where filePath = "[''tmp'', ''frame-script-abc123''] @ [''bin.zip'']"
      and url = "''https://example.org/bin.zip''"]
  show ?thesis
    by (simp add: status_of_def tarball_missing_world_fields)
qed

theorem failed_download_leaves_target_untouched_witness:
  "fst (main_block broken_world [''home'', ''user'', ''my-project'']
          ''https://example.org/template.tgz'' ''https://example.org/bin.zip'' sys0)
     = Rejected (Error ''aborted'') \<and>
   files (snd (main_block broken_world [''home'', ''user'', ''my-project'']
          ''https://example.org/template.tgz'' ''https://example.org/bin.zip'' sys0))
      [''home'', ''user'', ''my-project''] = None \<and>
   files (snd (main_block broken_world [''home'', ''user'', ''my-project'']
          ''https://example.org/template.tgz'' ''https://example.org/bin.zip'' sys0))
      [''tmp'', ''frame-script-abc123'', ''bin.zip''] = None \<and>
   fst (main_block tarball_missing_world [''home'', ''user'', ''my-project'']
          ''https://example.org/template.tgz'' ''https://example.org/bin.zip'' sys0)
     = Rejected (Error ''Download failed with status 404'') \<and>
   files (snd (main_block tarball_missing_world [''home'', ''user'', ''my-project'']
          ''https://example.org/template.tgz'' ''https://example.org/bin.zip'' sys0))
      [''home'', ''user'', ''my-project''] = None \<and>
   requests (snd (main_block tarball_missing_world [''home'', ''user'', ''my-project'']
          ''https://example.org/template.tgz'' ''https://example.org/bin.zip'' sys0)) = 1"
proof -
  let ?tmp = "[''tmp'', ''frame-script-abc123'']"
  let ?target = "[''home'', ''user'', ''my-project'']"
  let ?b = "main_block broken_world ?target
          ''https://example.org/template.tgz'' ''https://example.org/bin.zip'' sys0"
  let ?m = "main_block tarball_missing_world ?target
          ''https://example.org/template.tgz'' ''https://example.org/bin.zip'' sys0"
  note broken = failed_download_leaves_target_untouched
      [OF broken_world_fields(4) broken_world_first_download broken_world_second_download,
       of ?target]
  note missing = failed_download_leaves_target_untouched
      [OF tarball_missing_world_fields(4) tarball_missing_first_download
          tarball_missing_second_download, of ?target]
  have b_frame: "\<forall>p. \<not> prefix ?tmp p \<longrightarrow> files (snd ?b) p = files sys0 p"
    and b_clean: "\<forall>p. prefix ?tmp p \<longrightarrow> files (snd ?b) p = None"
    using broken by (simp_all add: broken_world_fields)
  have m_frame: "\<forall>p. \<not> prefix ?tmp p \<longrightarrow> files (snd ?m) p = files sys0 p"
    and m_requests: "requests (snd ?m) = 1"
    using missing by simp_all
  have "files (snd ?b) ?target = None"
    using b_frame by (simp add: sys0_def)
  moreover have "files (snd ?b) [''tmp'', ''frame-script-abc123'', ''bin.zip''] = None"
    using b_clean by simp
  moreover have "files (snd ?m) ?target = None"
    using m_frame by (simp add: sys0_def)
  moreover have "fst ?b = Rejected (Error ''aborted'')"
    using main_downloads_outcomes[OF broken_world_first_download broken_world_second_download]
    by (simp add: main_block_def mkdtemp_def await_def try_finally_def rm_def
          broken_world_fields)
  moreover have "fst ?m = Rejected (Error ''Download failed with status 404'')"
    using main_downloads_outcomes[OF tarball_missing_first_download
            tarball_missing_second_download]
    by (simp add: main_block_def mkdtemp_def await_def try_finally_def rm_def
          tarball_missing_world_fields)
  ultimately show ?thesis
    using m_requests by simp
qed

end
